theory Spec2Isabelle
  imports Main "HOL-Library.AList"
begin

section \<open>Pure paths\<close>

text \<open>
  The generator works on \<^verbatim>\<open>pathlib.Path\<close> objects of a POSIX system. A path is its
  anchor (rooted at \<^verbatim>\<open>/\<close> or relative) and the list of its components. The path
  constructor drops empty and \<^verbatim>\<open>.\<close> components and keeps \<^verbatim>\<open>..\<close>; the
  special root \<^verbatim>\<open>//\<close> is not distinguished from \<^verbatim>\<open>/\<close>. The operations are
  those of Python 3.12, the first release with \<^verbatim>\<open>walk_up\<close>: the suffix of a name starts
  at its last dot, unless that dot is the first or the last character of the name.
\<close>

datatype path = Path (rooted: bool) (tail: "string list")

primrec split_on :: "char \<Rightarrow> string \<Rightarrow> string list" where
  "split_on c [] = [[]]"
| "split_on c (x # xs) =
     (if x = c then [] # split_on c xs
      else (case split_on c xs of [] \<Rightarrow> [[x]] | y # ys \<Rightarrow> (x # y) # ys))"

definition parse_path :: "string \<Rightarrow> path" where
  "parse_path s =
     Path (s \<noteq> [] \<and> hd s = CHR ''/'')
          (filter (\<lambda>c. c \<noteq> [] \<and> c \<noteq> ''.'') (split_on (CHR ''/'') s))"

fun join_with :: "string \<Rightarrow> string list \<Rightarrow> string" where
  "join_with sep [] = []"
| "join_with sep [x] = x"
| "join_with sep (x # y # ys) = x @ sep @ join_with sep (y # ys)"

definition str_path :: "path \<Rightarrow> string" where
  "str_path p =
     (if rooted p then ''/'' @ join_with ''/'' (tail p)
      else if tail p = [] then ''.''
      else join_with ''/'' (tail p))"

definition joinpath :: "path \<Rightarrow> path \<Rightarrow> path" where
  "joinpath a b = (if rooted b then b else Path (rooted a) (tail a @ tail b))"

definition parent :: "path \<Rightarrow> path" where
  "parent p = Path (rooted p) (butlast (tail p))"

definition name :: "path \<Rightarrow> string" where
  "name p = (if tail p = [] then [] else last (tail p))"

text \<open>\<^verbatim>\<open>str.rfind\<close>: the index of the last occurrence, \<open>-1\<close> when there is none.\<close>

definition rfind :: "char \<Rightarrow> string \<Rightarrow> int" where
  "rfind c s =
     (if c \<in> set s
      then int (length s) - 1 - int (length (takeWhile (\<lambda>x. x \<noteq> c) (rev s)))
      else - 1)"

definition suffix :: "path \<Rightarrow> string" where
  "suffix p =
     (let n = name p; i = rfind (CHR ''.'') n
      in if 0 < i \<and> i < int (length n) - 1 then drop (nat i) n else [])"

definition stem :: "path \<Rightarrow> string" where
  "stem p =
     (let n = name p; i = rfind (CHR ''.'') n
      in if 0 < i \<and> i < int (length n) - 1 then take (nat i) n else n)"

datatype error =
    ValueError
  | FileNotFoundError
  | NotADirectoryError
  | IsADirectoryError
  | FileExistsError
  | SameFileError
  | AttributeError
  | TypeError
  | CollaboratorError string

definition with_name :: "path \<Rightarrow> string \<Rightarrow> error + path" where
  "with_name p n =
     (if name p = [] then Inl ValueError
      else if n = [] \<or> CHR ''/'' \<in> set n \<or> n = ''.'' then Inl ValueError
      else Inr (Path (rooted p) (butlast (tail p) @ [n])))"

definition with_suffix :: "path \<Rightarrow> string \<Rightarrow> error + path" where
  "with_suffix p suf =
     (if CHR ''/'' \<in> set suf then Inl ValueError
      else if (suf \<noteq> [] \<and> hd suf \<noteq> CHR ''.'') \<or> suf = ''.'' then Inl ValueError
      else if name p = [] then Inl ValueError
      else let old_suffix = suffix p
           in if old_suffix = [] then with_name p (name p @ suf)
              else with_name p (take (length (name p) - length old_suffix) (name p) @ suf))"

definition is_relative_to :: "path \<Rightarrow> path \<Rightarrow> bool" where
  "is_relative_to p other \<longleftrightarrow>
     rooted p = rooted other \<and> take (length (tail other)) (tail p) = tail other"

definition relative_to :: "path \<Rightarrow> path \<Rightarrow> error + path" where
  "relative_to p other =
     (if is_relative_to p other
      then Inr (Path False (drop (length (tail other)) (tail p)))
      else Inl ValueError)"

text \<open>
  \<^verbatim>\<open>relative_to(other, walk_up=True)\<close> tries \<open>other\<close> and then each of its parents in
  turn, counting the steps; it refuses to walk up through a \<^verbatim>\<open>..\<close> component, and
  fails when no parent of \<open>other\<close> is an ancestor of the path (different anchors).
\<close>

function walk_up_from :: "path \<Rightarrow> bool \<Rightarrow> string list \<Rightarrow> nat \<Rightarrow> error + path" where
  "walk_up_from p r other_tail step =
     (if is_relative_to p (Path r other_tail)
      then Inr (Path False (replicate step ''..'' @ drop (length other_tail) (tail p)))
      else if other_tail = [] then Inl ValueError
      else if last other_tail = ''..'' then Inl ValueError
      else walk_up_from p r (butlast other_tail) (Suc step))"
  by pat_completeness auto
termination
  by (relation "measure (\<lambda>(p, r, other_tail, step). length other_tail)") auto

declare walk_up_from.simps [simp del]

definition relative_to_walk_up :: "path \<Rightarrow> path \<Rightarrow> error + path" where
  "relative_to_walk_up p other = walk_up_from p (rooted other) (tail other) 0"

text \<open>
  Resolving a relative reference against a directory, as the consumer of the generated
  HTML does: each \<^verbatim>\<open>..\<close> leaves the current directory for its parent (the root is its
  own parent), every other component descends.
\<close>

fun resolve_against :: "string list \<Rightarrow> string list \<Rightarrow> string list" where
  "resolve_against dir [] = dir"
| "resolve_against dir (c # cs) =
     (if c = ''..'' then resolve_against (butlast dir) cs
      else resolve_against (dir @ [c]) cs)"


section \<open>File system\<close>

text \<open>
  The file system is a tree without symbolic links: a regular file with its text, or a
  directory with its entries (the first entry of a name is the visible one). The root
  of the tree is the directory \<^verbatim>\<open>/\<close>. A location is a list of component names from
  the root, free of \<^verbatim>\<open>..\<close>. Permissions, special files and failing devices are left
  out: an operation fails only for what is or is not in the tree.
\<close>

datatype node = File string | Dir "(string \<times> node) list"

fun stat :: "node \<Rightarrow> string list \<Rightarrow> error + node" where
  "stat n [] = Inr n"
| "stat (File c) (x # xs) = Inl NotADirectoryError"
| "stat (Dir es) (x # xs) =
     (case map_of es x of None \<Rightarrow> Inl FileNotFoundError | Some n \<Rightarrow> stat n xs)"

text \<open>
  How the operating system follows a path: a relative path starts at the working
  directory, \<^verbatim>\<open>..\<close> leaves a directory (which has to be one) for its parent, the
  root being its own parent.
\<close>

fun os_walk :: "node \<Rightarrow> string list \<Rightarrow> string list \<Rightarrow> error + string list" where
  "os_walk t cur [] = Inr cur"
| "os_walk t cur (c # cs) =
     (if c = ''..'' then
        (case stat t cur of
           Inl e \<Rightarrow> Inl e
         | Inr (File _) \<Rightarrow> Inl NotADirectoryError
         | Inr (Dir _) \<Rightarrow> os_walk t (butlast cur) cs)
      else os_walk t (cur @ [c]) cs)"

definition locate :: "node \<Rightarrow> string list \<Rightarrow> path \<Rightarrow> error + string list" where
  "locate t cwd p = os_walk t (if rooted p then [] else cwd) (tail p)"

definition absolute :: "string list \<Rightarrow> path \<Rightarrow> path" where
  "absolute cwd p = (if rooted p then p else Path True (cwd @ tail p))"

definition exists :: "node \<Rightarrow> string list \<Rightarrow> path \<Rightarrow> bool" where
  "exists t cwd p =
     (case locate t cwd p of
        Inl e \<Rightarrow> False
      | Inr l \<Rightarrow> (case stat t l of Inl e \<Rightarrow> False | Inr n \<Rightarrow> True))"

definition is_dir :: "node \<Rightarrow> string list \<Rightarrow> path \<Rightarrow> bool" where
  "is_dir t cwd p =
     (case locate t cwd p of
        Inl e \<Rightarrow> False
      | Inr l \<Rightarrow> (case stat t l of Inr (Dir es) \<Rightarrow> True | _ \<Rightarrow> False))"

definition read_text :: "node \<Rightarrow> string list \<Rightarrow> path \<Rightarrow> error + string" where
  "read_text t cwd p =
     (case locate t cwd p of
        Inl e \<Rightarrow> Inl e
      | Inr l \<Rightarrow>
          (case stat t l of
             Inl e \<Rightarrow> Inl e
           | Inr (Dir es) \<Rightarrow> Inl IsADirectoryError
           | Inr (File c) \<Rightarrow> Inr c))"

text \<open>Replacing or adding the entry at a location whose parent directory exists.\<close>

fun put :: "string list \<Rightarrow> node \<Rightarrow> node \<Rightarrow> error + node" where
  "put [] new t = Inr new"
| "put (x # xs) new (File c) = Inl NotADirectoryError"
| "put (x # xs) new (Dir es) =
     (if xs = [] then Inr (Dir (AList.update x new es))
      else (case map_of es x of
              None \<Rightarrow> Inl FileNotFoundError
            | Some n \<Rightarrow>
                (case put xs new n of
                   Inl e \<Rightarrow> Inl e
                 | Inr n' \<Rightarrow> Inr (Dir (AList.update x n' es)))))"

text \<open>Opening a file for writing truncates it; a directory cannot be opened so.\<close>

definition write_text :: "node \<Rightarrow> string list \<Rightarrow> path \<Rightarrow> string \<Rightarrow> error + node" where
  "write_text t cwd p content =
     (case locate t cwd p of
        Inl e \<Rightarrow> Inl e
      | Inr l \<Rightarrow>
          (case stat t l of
             Inr (Dir es) \<Rightarrow> Inl IsADirectoryError
           | _ \<Rightarrow> put l (File content) t))"

text \<open>
  \<^verbatim>\<open>mkdir(parents=True, exist_ok=True)\<close>: an existing directory is left alone, a
  missing one is created together with its missing ancestors, a regular file in the way
  is an error.
\<close>

fun makedirs :: "string list \<Rightarrow> node \<Rightarrow> error + node" where
  "makedirs [] (Dir es) = Inr (Dir es)"
| "makedirs [] (File c) = Inl FileExistsError"
| "makedirs (x # xs) (File c) = Inl NotADirectoryError"
| "makedirs (x # xs) (Dir es) =
     (case makedirs xs (case map_of es x of None \<Rightarrow> Dir [] | Some n \<Rightarrow> n) of
        Inl e \<Rightarrow> Inl e
      | Inr n' \<Rightarrow> Inr (Dir (AList.update x n' es)))"

definition mkdir_parents :: "node \<Rightarrow> string list \<Rightarrow> path \<Rightarrow> error + node" where
  "mkdir_parents t cwd p =
     (case locate t cwd p of Inl e \<Rightarrow> Inl e | Inr l \<Rightarrow> makedirs l t)"

text \<open>
  \<^verbatim>\<open>shutil.copy\<close>: a destination that is a directory receives the file under the
  source's base name; copying a file onto itself is refused.
\<close>

definition basename :: "path \<Rightarrow> string" where
  "basename p = last (split_on (CHR ''/'') (str_path p))"

definition samefile :: "node \<Rightarrow> string list \<Rightarrow> path \<Rightarrow> path \<Rightarrow> bool" where
  "samefile t cwd a b =
     (exists t cwd a \<and> exists t cwd b \<and> locate t cwd a = locate t cwd b)"

definition copyfile :: "node \<Rightarrow> string list \<Rightarrow> path \<Rightarrow> path \<Rightarrow> error + node" where
  "copyfile t cwd src dst =
     (if samefile t cwd src dst then Inl SameFileError
      else (case read_text t cwd src of
              Inl e \<Rightarrow> Inl e
            | Inr c \<Rightarrow> write_text t cwd dst c))"

definition shutil_copy :: "node \<Rightarrow> string list \<Rightarrow> path \<Rightarrow> path \<Rightarrow> error + node" where
  "shutil_copy t cwd src dst =
     (if is_dir t cwd dst
      then copyfile t cwd src (joinpath dst (parse_path (basename src)))
      else copyfile t cwd src dst)"

text \<open>
  \<^verbatim>\<open>Path.resolve\<close>: the path is made absolute and its \<^verbatim>\<open>..\<close> components are
  removed; in strict mode every component met on the way has to exist.
\<close>

fun realpath :: "node \<Rightarrow> bool \<Rightarrow> string list \<Rightarrow> string list \<Rightarrow> error + string list" where
  "realpath t strict cur [] = Inr cur"
| "realpath t strict cur (c # cs) =
     (if c = ''..'' then realpath t strict (butlast cur) cs
      else (case stat t (cur @ [c]) of
              Inl e \<Rightarrow> if strict then Inl e else realpath t strict (cur @ [c]) cs
            | Inr n \<Rightarrow> realpath t strict (cur @ [c]) cs))"

definition resolve :: "node \<Rightarrow> string list \<Rightarrow> path \<Rightarrow> bool \<Rightarrow> error + path" where
  "resolve t cwd p strict =
     (case realpath t strict (if rooted p then [] else cwd) (tail p) of
        Inl e \<Rightarrow> Inl e
      | Inr l \<Rightarrow> Inr (Path True l))"


section \<open>Collaborators\<close>

text \<open>
  Values that come from YAML (front matter and configuration) and their truth value in
  a Python condition.
\<close>

datatype pyvalue =
    NoneV
  | StrV string
  | IntV int
  | BoolV bool
  | ListV "pyvalue list"
  | DictV "(string \<times> pyvalue) list"

fun truthy :: "pyvalue \<Rightarrow> bool" where
  "truthy NoneV = False"
| "truthy (StrV s) = (s \<noteq> [])"
| "truthy (IntV i) = (i \<noteq> 0)"
| "truthy (BoolV b) = b"
| "truthy (ListV vs) = (vs \<noteq> [])"
| "truthy (DictV kvs) = (kvs \<noteq> [])"

text \<open>
  Modelled from the spec: the \<^verbatim>\<open>Config\<close> class (\<^verbatim>\<open>config.py\<close> is not among the
  sources). It is a nested key lookup, \<^verbatim>\<open>config.get("slides", "theme")\<close>, that
  returns an absent value (\<^verbatim>\<open>None\<close>), never an error, when a key is unset.
\<close>

type_synonym config = "string list \<Rightarrow> pyvalue"

datatype level = INFO | WARNING

record world =
  fs :: node
  cwd :: "string list"
  log :: "(level \<times> string) list"

datatype theme_ref = ThemeUrl string | ThemePath path

record slide_vars =
  sv_theme :: "theme_ref option"
  sv_revealjs_path :: path
  sv_markdown_data_options :: "(string \<times> pyvalue) list"
  sv_markdown :: string
  sv_revealjs_config :: pyvalue

record slideshow =
  title :: pyvalue
  location :: path

record index_vars =
  iv_title :: pyvalue
  iv_theme :: "theme_ref option"
  iv_slideshows :: "slideshow list"
  iv_build_datetime :: string

text \<open>
  What the generator takes from libraries and from constants that are not among the
  sources: the front-matter parser, the three image patterns of \<^verbatim>\<open>constants.py\<close>
  (each gives the \<^verbatim>\<open>location\<close> group of its matches, in order), the two templates
  (looked up by the configured name and rendered), the scheme that
  \<^verbatim>\<open>urllib.parse.urlparse\<close> finds, \<^verbatim>\<open>shutil.copytree\<close> with
  \<^verbatim>\<open>dirs_exist_ok\<close>, the enumeration of \<^verbatim>\<open>glob("**/*.md")\<close>, and the clock.
\<close>

record env =
  frontmatter_parse :: "string \<Rightarrow> error + ((string \<rightharpoonup> pyvalue) \<times> string)"
  md_image_regex :: "string \<Rightarrow> string list"
  html_image_regex :: "string \<Rightarrow> string list"
  html_background_image_regex :: "string \<Rightarrow> string list"
  slideshow_template :: "node \<Rightarrow> string list \<Rightarrow> pyvalue \<Rightarrow> slide_vars \<Rightarrow> error + string"
  index_template :: "node \<Rightarrow> string list \<Rightarrow> pyvalue \<Rightarrow> index_vars \<Rightarrow> error + string"
  urlparse_scheme :: "string \<Rightarrow> error + string"
  copytree :: "node \<Rightarrow> string list \<Rightarrow> path \<Rightarrow> path \<Rightarrow> error + node"
  glob_md :: "node \<Rightarrow> string list \<Rightarrow> path \<Rightarrow> path list"
  now :: string
  elapsed :: string

section \<open>The markup generator\<close>

record generator =
  config :: config
  md_root_path :: path
  output_directory_path :: path
  assets_path :: path
  revealjs_path :: path
  output_assets_path :: path
  output_revealjs_path :: path

definition info :: "string \<Rightarrow> world \<Rightarrow> world" where
  "info msg w = w\<lparr>log := log w @ [(INFO, msg)]\<rparr>"

definition warning :: "string \<Rightarrow> world \<Rightarrow> world" where
  "warning msg w = w\<lparr>log := log w @ [(WARNING, msg)]\<rparr>"

definition quoted :: "string \<Rightarrow> string" where
  "quoted s = CHR 0x22 # s @ [CHR 0x22]"

definition init ::
  "config \<Rightarrow> path \<Rightarrow> path \<Rightarrow> world \<Rightarrow> (error + generator) \<times> world" where
  "init cfg md_root output_directory w =
     (case resolve (fs w) (cwd w) md_root True of
        Inl e \<Rightarrow> (Inl e, w)
      | Inr root \<Rightarrow>
          let w1 = info (''Markdown root directory: '' @ quoted (str_path (absolute (cwd w) root))) w
          in (case resolve (fs w1) (cwd w1) output_directory False of
                Inl e \<Rightarrow> (Inl e, w1)
              | Inr out \<Rightarrow>
                  let w2 = info (''Requested output directory: ''
                                 @ quoted (str_path (absolute (cwd w1) out))) w1
                  in (case resolve (fs w2) (cwd w2) (parse_path ''assets'') True of
                        Inl e \<Rightarrow> (Inl e, w2)
                      | Inr assets \<Rightarrow>
                          (case resolve (fs w2) (cwd w2)
                                  (joinpath assets (parse_path ''reveal.js-master'')) True of
                             Inl e \<Rightarrow> (Inl e, w2)
                           | Inr revealjs \<Rightarrow>
                               (Inr \<lparr>config = cfg,
                                     md_root_path = root,
                                     output_directory_path = out,
                                     assets_path = assets,
                                     revealjs_path = revealjs,
                                     output_assets_path = joinpath out (parse_path ''assets''),
                                     output_revealjs_path =
                                       joinpath (joinpath out (parse_path ''assets''))
                                                (parse_path ''reveal-js'')\<rparr>,
                                w2)))))"

subsection \<open>Creating and copying files\<close>

definition create_file :: "path \<Rightarrow> string \<Rightarrow> world \<Rightarrow> (error + unit) \<times> world" where
  "create_file destination_path content w =
     (if exists (fs w) (cwd w) destination_path then
        (case write_text (fs w) (cwd w) destination_path content of
           Inl e \<Rightarrow> (Inl e, w)
         | Inr t \<Rightarrow>
             (Inr (), info (''Overwritten: '' @ quoted (str_path destination_path))
                           (w\<lparr>fs := t\<rparr>)))
      else
        (case mkdir_parents (fs w) (cwd w) (parent destination_path) of
           Inl e \<Rightarrow> (Inl e, w)
         | Inr t1 \<Rightarrow>
             (case write_text t1 (cwd w) destination_path content of
                Inl e \<Rightarrow> (Inl e, w\<lparr>fs := t1\<rparr>)
              | Inr t2 \<Rightarrow>
                  (Inr (), info (''Created: '' @ quoted (str_path destination_path))
                                (w\<lparr>fs := t2\<rparr>)))))"

definition copy_message :: "string \<Rightarrow> bool \<Rightarrow> string list \<Rightarrow> path \<Rightarrow> path \<Rightarrow> string" where
  "copy_message kind overwrite wd source_path destination_path =
     (if overwrite then ''Overwritten'' else ''Copied'') @ kind
     @ quoted (str_path (absolute wd source_path)) @ '' to ''
     @ quoted (str_path (absolute wd destination_path))"

definition copy_tree :: "env \<Rightarrow> path \<Rightarrow> path \<Rightarrow> world \<Rightarrow> (error + unit) \<times> world" where
  "copy_tree env source_path destination_path w =
     (let overwrite = exists (fs w) (cwd w) destination_path
      in case mkdir_parents (fs w) (cwd w) (parent destination_path) of
           Inl e \<Rightarrow> (Inl e, w)
         | Inr t1 \<Rightarrow>
             (case copytree env t1 (cwd w) source_path destination_path of
                Inl e \<Rightarrow> (Inl e, w\<lparr>fs := t1\<rparr>)
              | Inr t2 \<Rightarrow>
                  (Inr (), info (copy_message '' directory '' overwrite (cwd w)
                                   source_path destination_path)
                                (w\<lparr>fs := t2\<rparr>))))"

definition copy_file :: "path \<Rightarrow> path \<Rightarrow> world \<Rightarrow> (error + unit) \<times> world" where
  "copy_file source_path destination_path w =
     (let overwrite = exists (fs w) (cwd w) destination_path
      in case mkdir_parents (fs w) (cwd w) (parent destination_path) of
           Inl e \<Rightarrow> (Inl e, w)
         | Inr t1 \<Rightarrow>
             (case shutil_copy t1 (cwd w) source_path destination_path of
                Inl e \<Rightarrow> (Inl e, w\<lparr>fs := t1\<rparr>)
              | Inr t2 \<Rightarrow>
                  (Inr (), info (copy_message '' file '' overwrite (cwd w)
                                   source_path destination_path)
                                (w\<lparr>fs := t2\<rparr>))))"

definition copy :: "env \<Rightarrow> path \<Rightarrow> path \<Rightarrow> world \<Rightarrow> (error + unit) \<times> world" where
  "copy env source_path destination_path w =
     (if is_dir (fs w) (cwd w) source_path
      then copy_tree env source_path destination_path w
      else copy_file source_path destination_path w)"

definition copy_to_output ::
  "env \<Rightarrow> generator \<Rightarrow> path \<Rightarrow> path \<Rightarrow> world \<Rightarrow> (error + path) \<times> world" where
  "copy_to_output env g source_path destination_path w =
     (case copy env source_path destination_path w of
        (Inl e, w1) \<Rightarrow> (Inl e, w1)
      | (Inr u, w1) \<Rightarrow>
          (case relative_to destination_path (output_directory_path g) of
             Inl e \<Rightarrow> (Inl e, w1)
           | Inr relative_path \<Rightarrow> (Inr relative_path, w1)))"

definition outside_message :: "string list \<Rightarrow> path \<Rightarrow> string" where
  "outside_message wd source_path =
     quoted (str_path (absolute wd source_path))
     @ '' is outside the markdown root directory, skipped!'' @ [CHR 0x22]"

definition copy_to_output_relative_to_md_root ::
  "env \<Rightarrow> generator \<Rightarrow> path \<Rightarrow> world \<Rightarrow> (error + path option) \<times> world" where
  "copy_to_output_relative_to_md_root env g source_path0 w =
     (case resolve (fs w) (cwd w) source_path0 True of
        Inl e \<Rightarrow> (Inl e, w)
      | Inr source_path \<Rightarrow>
          if \<not> is_relative_to source_path (md_root_path g)
          then (Inr None, warning (outside_message (cwd w) source_path) w)
          else (case relative_to source_path (md_root_path g) of
                  Inl e \<Rightarrow> (Inl e, w)
                | Inr relative_path \<Rightarrow>
                    (case copy env source_path
                            (joinpath (output_directory_path g) relative_path) w of
                       (Inl e, w1) \<Rightarrow> (Inl e, w1)
                     | (Inr u, w1) \<Rightarrow> (Inr (Some relative_path), w1))))"


subsection \<open>Images and themes\<close>

fun copy_each_image ::
  "env \<Rightarrow> generator \<Rightarrow> path \<Rightarrow> string list \<Rightarrow> world \<Rightarrow> (error + unit) \<times> world" where
  "copy_each_image env g md_file [] w = (Inr (), w)"
| "copy_each_image env g md_file (loc # locs) w =
     (case resolve (fs w) (cwd w) (joinpath (parent md_file) (parse_path loc)) True of
        Inl e \<Rightarrow> (Inl e, w)
      | Inr image_path \<Rightarrow>
          (case copy_to_output_relative_to_md_root env g image_path w of
             (Inl e, w1) \<Rightarrow> (Inl e, w1)
           | (Inr r, w1) \<Rightarrow> copy_each_image env g md_file locs w1))"

definition image_locations :: "env \<Rightarrow> string \<Rightarrow> string list" where
  "image_locations env markdown =
     concat (map (\<lambda>regex. regex markdown)
               [md_image_regex env, html_image_regex env, html_background_image_regex env])"

definition copy_images ::
  "env \<Rightarrow> generator \<Rightarrow> path \<Rightarrow> string \<Rightarrow> world \<Rightarrow> (error + unit) \<times> world" where
  "copy_images env g md_file markdown w =
     copy_each_image env g md_file (image_locations env markdown) w"

definition is_absolute_url :: "env \<Rightarrow> string \<Rightarrow> error + bool" where
  "is_absolute_url env url =
     (case urlparse_scheme env url of Inl e \<Rightarrow> Inl e | Inr scheme \<Rightarrow> Inr (scheme \<noteq> []))"

definition copy_theme ::
  "env \<Rightarrow> generator \<Rightarrow> path \<Rightarrow> string \<Rightarrow> world \<Rightarrow> (error + theme_ref) \<times> world" where
  "copy_theme env g file_using_theme_path theme w =
     (case is_absolute_url env theme of
        Inl e \<Rightarrow> (Inl e, w)
      | Inr True \<Rightarrow>
          (Inr (ThemeUrl theme),
           info (''Using theme '' @ quoted theme @ '' is an absolute URL, no copy necessary'') w)
      | Inr False \<Rightarrow>
          (case resolve (fs w) (cwd w) (parse_path theme) True of
             Inl e \<Rightarrow> (Inl e, w)
           | Inr theme_path \<Rightarrow>
               let w1 = info (''Using theme '' @ quoted (str_path theme_path)) w;
                   theme_output_path =
                     joinpath (output_assets_path g) (parse_path (name theme_path))
               in (case copy_to_output env g theme_path theme_output_path w1 of
                     (Inl e, w2) \<Rightarrow> (Inl e, w2)
                   | (Inr r, w2) \<Rightarrow>
                       (case relative_to_walk_up theme_output_path
                               (parent file_using_theme_path) of
                          Inl e \<Rightarrow> (Inl e, w2)
                        | Inr relative_theme_path \<Rightarrow>
                            (Inr (ThemePath relative_theme_path), w2)))))"

text \<open>
  \<^verbatim>\<open>if theme := self.config.get(section, "theme")\<close>: a value that is not true leaves
  the theme at \<^verbatim>\<open>None\<close>; a true value that is not a string fails in
  \<^verbatim>\<open>urlparse\<close>.
\<close>

definition configured_theme ::
  "env \<Rightarrow> generator \<Rightarrow> string \<Rightarrow> path \<Rightarrow> world \<Rightarrow> (error + theme_ref option) \<times> world" where
  "configured_theme env g section file_using_theme_path w =
     (let theme = config g [section, ''theme'']
      in if truthy theme then
           (case theme of
              StrV s \<Rightarrow>
                (case copy_theme env g file_using_theme_path s w of
                   (Inl e, w1) \<Rightarrow> (Inl e, w1)
                 | (Inr r, w1) \<Rightarrow> (Inr (Some r), w1))
            | _ \<Rightarrow> (Inl AttributeError, w))
         else (Inr None, w))"

subsection \<open>One Markdown file\<close>

definition rendering_options :: "string list" where
  "rendering_options = [''separator'', ''separator-vertical'', ''separator-notes'', ''charset'']"

definition markdown_data_options :: "config \<Rightarrow> (string \<times> pyvalue) list" where
  "markdown_data_options cfg =
     foldl (\<lambda>options option.
              let v = cfg [''slides'', option]
              in if truthy v then AList.update option v options else options)
           [] rendering_options"

definition output_markup_path_of :: "generator \<Rightarrow> path \<Rightarrow> error + path" where
  "output_markup_path_of g md_file =
     (case relative_to md_file (md_root_path g) of
        Inl e \<Rightarrow> Inl e
      | Inr rel \<Rightarrow> with_suffix (joinpath (output_directory_path g) rel) ''.html'')"

text \<open>
  The first part of \<^verbatim>\<open>__process_markdown_file\<close>, up to the output file being
  written; it also hands on the Markdown body and the rendered markup.
\<close>

definition write_markup ::
  "env \<Rightarrow> generator \<Rightarrow> path \<Rightarrow> world
     \<Rightarrow> (error + ((string \<rightharpoonup> pyvalue) \<times> string \<times> path \<times> string)) \<times> world" where
  "write_markup env g md_file w0 =
     (let w = info (''Processing markdown file: '' @ quoted (str_path md_file)) w0
      in case read_text (fs w) (cwd w) md_file of
           Inl e \<Rightarrow> (Inl e, w)
         | Inr content \<Rightarrow>
         (case frontmatter_parse env content of
           Inl e \<Rightarrow> (Inl e, w)
         | Inr (metadata, markdown) \<Rightarrow>
         (case output_markup_path_of g md_file of
           Inl e \<Rightarrow> (Inl e, w)
         | Inr output_markup_path \<Rightarrow>
         (case relative_to_walk_up (output_revealjs_path g) (parent output_markup_path) of
           Inl e \<Rightarrow> (Inl e, w)
         | Inr relative_revealjs_path \<Rightarrow>
         (case configured_theme env g ''slides'' output_markup_path w of
           (Inl e, w1) \<Rightarrow> (Inl e, w1)
         | (Inr relative_theme_path, w1) \<Rightarrow>
         (case slideshow_template env (fs w1) (cwd w1) (config g [''slides'', ''template''])
                 \<lparr>sv_theme = relative_theme_path,
                  sv_revealjs_path = relative_revealjs_path,
                  sv_markdown_data_options = markdown_data_options (config g),
                  sv_markdown = markdown,
                  sv_revealjs_config = config g [''reveal.js'']\<rparr> of
           Inl e \<Rightarrow> (Inl e, w1)
         | Inr markup \<Rightarrow>
         (case create_file output_markup_path markup w1 of
           (Inl e, w2) \<Rightarrow> (Inl e, w2)
         | (Inr u, w2) \<Rightarrow> (Inr (metadata, markdown, output_markup_path, markup), w2))))))))"

definition process_markdown_file ::
  "env \<Rightarrow> generator \<Rightarrow> path \<Rightarrow> world \<Rightarrow> (error + ((string \<rightharpoonup> pyvalue) \<times> path)) \<times> world" where
  "process_markdown_file env g md_file w =
     (case write_markup env g md_file w of
        (Inl e, w2) \<Rightarrow> (Inl e, w2)
      | (Inr (metadata, markdown, output_markup_path, markup), w2) \<Rightarrow>
          (case copy_images env g md_file markdown w2 of
             (Inl e, w3) \<Rightarrow> (Inl e, w3)
           | (Inr u, w3) \<Rightarrow> (Inr (metadata, output_markup_path), w3)))"

subsection \<open>A directory of Markdown files\<close>

text \<open>
  The loop of \<^verbatim>\<open>__process_markdown_directory\<close> runs over the files that the
  enumeration finds in the file system as it is when the loop starts, in the order of
  the enumeration, and collects the index entries; the index is rendered and written
  after it.
\<close>

definition index_entry :: "(string \<rightharpoonup> pyvalue) \<Rightarrow> path \<Rightarrow> path \<Rightarrow> slideshow" where
  "index_entry metadata md_file relative_location =
     \<lparr>title = (case metadata ''title'' of None \<Rightarrow> StrV (stem md_file) | Some v \<Rightarrow> v),
      location = relative_location\<rparr>"

fun process_each ::
  "env \<Rightarrow> generator \<Rightarrow> path list \<Rightarrow> slideshow list \<Rightarrow> world
     \<Rightarrow> (error + slideshow list) \<times> world" where
  "process_each env g [] slideshows w = (Inr slideshows, w)"
| "process_each env g (md_file # md_files) slideshows w =
     (case process_markdown_file env g md_file w of
        (Inl e, w1) \<Rightarrow> (Inl e, w1)
      | (Inr (metadata, output_markup_path), w1) \<Rightarrow>
          (case relative_to output_markup_path (output_directory_path g) of
             Inl e \<Rightarrow> (Inl e, w1)
           | Inr relative_location \<Rightarrow>
               process_each env g md_files
                 (slideshows @ [index_entry metadata md_file relative_location]) w1))"

definition process_markdown_directory ::
  "env \<Rightarrow> generator \<Rightarrow> world \<Rightarrow> (error + unit) \<times> world" where
  "process_markdown_directory env g w =
     (case process_each env g (glob_md env (fs w) (cwd w) (md_root_path g)) [] w of
        (Inl e, w1) \<Rightarrow> (Inl e, w1)
      | (Inr slideshows, w1) \<Rightarrow>
          let w2 = info ''Generating index'' w1;
              index_path = joinpath (output_directory_path g) (parse_path ''index.html'')
          in (case configured_theme env g ''index'' index_path w2 of
                (Inl e, w3) \<Rightarrow> (Inl e, w3)
              | (Inr relative_theme_path, w3) \<Rightarrow>
                  (case index_template env (fs w3) (cwd w3) (config g [''index'', ''template''])
                          \<lparr>iv_title = config g [''index'', ''title''],
                           iv_theme = relative_theme_path,
                           iv_slideshows = slideshows,
                           iv_build_datetime = now env\<rparr> of
                     Inl e \<Rightarrow> (Inl e, w3)
                   | Inr content \<Rightarrow> create_file index_path content w3)))"

definition process_markdown ::
  "env \<Rightarrow> generator \<Rightarrow> path \<Rightarrow> world \<Rightarrow> (error + unit) \<times> world" where
  "process_markdown env g input_path w0 =
     (let w = info ''Processing markdown'' w0;
          finished = info (''Finished processing markdown in '' @ elapsed env @ '' seconds'')
      in if is_dir (fs w) (cwd w) input_path then
           (case process_markdown_directory env g w of
              (Inl e, w1) \<Rightarrow> (Inl e, w1)
            | (Inr u, w1) \<Rightarrow> (Inr (), finished w1))
         else
           (case process_markdown_file env g input_path w of
              (Inl e, w1) \<Rightarrow> (Inl e, w1)
            | (Inr r, w1) \<Rightarrow> (Inr (), finished w1)))"

section \<open>Resolved paths\<close>

text \<open>
  What \<^verbatim>\<open>Path.resolve\<close> returns: an absolute path without \<^verbatim>\<open>..\<close> components.
  The output directory, and every path joined from it and plain names, is of this form.
\<close>

definition resolved :: "path \<Rightarrow> bool" where
  "resolved p \<longleftrightarrow> rooted p \<and> ''..'' \<notin> set (tail p)"

section \<open>Markdown files and presence of settings\<close>

text \<open>
  The pattern \<^verbatim>\<open>*.md\<close> of \<^verbatim>\<open>glob("**/*.md")\<close>, on the last component: any name
  that ends in \<^verbatim>\<open>.md\<close>, hidden files included.
\<close>

definition matches_md_glob :: "path \<Rightarrow> bool" where
  "matches_md_glob p \<longleftrightarrow>
     3 \<le> length (name p) \<and> drop (length (name p) - 3) (name p) = ''.md''"

text \<open>The settings whose presence \<^verbatim>\<open>if value := self.config.get(...)\<close> tests.\<close>

definition presence_tested_keys :: "string list list" where
  "presence_tested_keys =
     [[''slides'', ''theme''], [''index'', ''theme'']]
     @ map (\<lambda>option. [''slides'', option]) rendering_options"

section \<open>A concrete setting\<close>

text \<open>
  A generator, collaborators and a file system to run the definitions on. The scheme
  function follows \<^verbatim>\<open>urllib.parse.urlsplit\<close>: a scheme is a prefix before the first
  colon that starts with a letter and consists of letters, digits, \<^verbatim>\<open>+\<close>, \<^verbatim>\<open>-\<close>
  and \<^verbatim>\<open>.\<close>, in lower case.
\<close>

definition ascii_lower :: "char \<Rightarrow> char" where
  "ascii_lower c =
     (case map_of (zip ''ABCDEFGHIJKLMNOPQRSTUVWXYZ'' ''abcdefghijklmnopqrstuvwxyz'') c of
        None \<Rightarrow> c
      | Some l \<Rightarrow> l)"

definition urlsplit_scheme :: "string \<Rightarrow> error + string" where
  "urlsplit_scheme url =
     (let candidate = takeWhile (\<lambda>c. c \<noteq> CHR '':'') url
      in if candidate \<noteq> [] \<and> length candidate < length url
            \<and> hd url \<in> set ''abcdefghijklmnopqrstuvwxyzABCDEFGHIJKLMNOPQRSTUVWXYZ''
            \<and> list_all (\<lambda>c. c \<in> set ''abcdefghijklmnopqrstuvwxyzABCDEFGHIJKLMNOPQRSTUVWXYZ0123456789+-.'')
                 candidate
         then Inr (map ascii_lower candidate)
         else Inr [])"

definition example_env :: env where
  "example_env =
     \<lparr>frontmatter_parse = (\<lambda>content. Inr (Map.empty, content)),
      md_image_regex = (\<lambda>markdown. []),
      html_image_regex = (\<lambda>markdown. []),
      html_background_image_regex = (\<lambda>markdown. []),
      slideshow_template = (\<lambda>t wd template vars. Inr (''<html>'' @ sv_markdown vars @ ''</html>'')),
      index_template = (\<lambda>t wd template vars. Inr ''<html>index</html>''),
      urlparse_scheme = urlsplit_scheme,
      copytree = (\<lambda>t wd src dst. Inr t),
      glob_md = (\<lambda>t wd root. []),
      now = ''2024-01-01 00:00:00'',
      elapsed = ''0.00''\<rparr>"

definition example_config :: config where
  "example_config key = (if key = [''slides'', ''template''] then StrV ''slideshow.html.jinja'' else NoneV)"

definition example_generator :: generator where
  "example_generator =
     \<lparr>config = example_config,
      md_root_path = Path True [''src''],
      output_directory_path = Path True [''out''],
      assets_path = Path True [''app'', ''assets''],
      revealjs_path = Path True [''app'', ''assets'', ''reveal.js-master''],
      output_assets_path = Path True [''out'', ''assets''],
      output_revealjs_path = Path True [''out'', ''assets'', ''reveal-js'']\<rparr>"

definition example_fs :: node where
  "example_fs =
     Dir [(''app'', Dir [(''assets'', Dir [(''reveal.js-master'', Dir [])])]),
          (''src'', Dir [(''a.md'', File ''# A''), (''img'', Dir [(''cat.png'', File ''CAT'')])]),
          (''etc'', Dir [(''logo.png'', File ''LOGO''), (''theme.css'', File ''ETC''),
                         (''reveal-js'', File ''CSS'')]),
          (''themes'', Dir [(''theme.css'', File ''THEMES'')]),
          (''out'', Dir [(''assets'', Dir [(''reveal-js'', Dir [])])])]"

definition example_world :: world where
  "example_world = \<lparr>fs = example_fs, cwd = [''app''], log = []\<rparr>"

section \<open>Properties of index entries\<close>

text \<open>
  The titles that the index is to show for a run of the loop over the given files from
  a given state. Each file is read in the state that the run has reached when its turn
  comes, which is the state that processing the files before it has left; its title is
  the \<^verbatim>\<open>title\<close> field of its front matter, or the stem of the file name when the
  front matter has no such field.
\<close>

fun expected_titles :: "env \<Rightarrow> generator \<Rightarrow> path list \<Rightarrow> world \<Rightarrow> pyvalue list" where
  "expected_titles env g [] w = []"
| "expected_titles env g (md_file # md_files) w =
     (case read_text (fs w) (cwd w) md_file of
        Inl e \<Rightarrow> []
      | Inr content \<Rightarrow>
          (case frontmatter_parse env content of
             Inl e \<Rightarrow> []
           | Inr (metadata, markdown) \<Rightarrow>
               (case metadata ''title'' of None \<Rightarrow> StrV (stem md_file) | Some v \<Rightarrow> v)
               # expected_titles env g md_files
                   (snd (process_markdown_file env g md_file w))))"

text \<open>
  A source tree with two slideshows, one with a title in its front matter and one
  without front matter, and a parser for contents that are a title line.
\<close>

definition example_index_env :: env where
  "example_index_env =
     example_env\<lparr>frontmatter_parse :=
       (\<lambda>content. if take 7 content = ''title: ''
                  then Inr ([''title'' \<mapsto> StrV (drop 7 content)], [])
                  else Inr (Map.empty, content))\<rparr>"

definition example_index_world :: world where
  "example_index_world =
     \<lparr>fs = Dir [(''app'', Dir [(''assets'', Dir [(''reveal.js-master'', Dir [])])]),
                (''src'', Dir [(''slides'',
                    Dir [(''a.md'', File ''title: Intro''),
                         (''sub'', Dir [(''b.md'', File ''# B'')])])]),
                (''out'', Dir [(''assets'', Dir [(''reveal-js'', Dir [])])])],
      cwd = [''app''], log = []\<rparr>"

section \<open>Properties of destinations\<close>

text \<open>
  A destination is absent when nothing is found at its location; its parent directories
  can be created when the parent is a directory already or is missing with no regular
  file on the way to it. A plain name is one component of a path.
\<close>

definition absent :: "node \<Rightarrow> string list \<Rightarrow> bool" where
  "absent t l = (case stat t l of Inl e \<Rightarrow> True | Inr n \<Rightarrow> False)"

definition parents_creatable :: "node \<Rightarrow> string list \<Rightarrow> bool" where
  "parents_creatable t l =
     (case stat t (butlast l) of
        Inr (Dir es) \<Rightarrow> True
      | Inr (File c) \<Rightarrow> False
      | Inl e \<Rightarrow> e = FileNotFoundError)"

definition plain_name :: "string \<Rightarrow> bool" where
  "plain_name n \<longleftrightarrow> n \<noteq> [] \<and> n \<noteq> ''.'' \<and> n \<noteq> ''..'' \<and> CHR ''/'' \<notin> set n"

text \<open>
  Two Markdown bodies for \<^verbatim>\<open>/src/a.md\<close>: one that refers to an image of the source
  tree and to one outside it, and one that refers to a file that does not exist.
\<close>

definition example_env_outside :: env where
  "example_env_outside =
     example_env\<lparr>md_image_regex := (\<lambda>markdown. [''img/cat.png'', ''/etc/logo.png''])\<rparr>"

definition example_env_missing :: env where
  "example_env_missing =
     example_env\<lparr>md_image_regex := (\<lambda>markdown. [''img/cat.png'', ''nope.png''])\<rparr>"

section \<open>Relative paths between output locations\<close>

lemma resolve_against_append:
  "resolve_against dir (xs @ ys) = resolve_against (resolve_against dir xs) ys"
  by (induction xs arbitrary: dir) auto

lemma resolve_against_dotdots:
  "resolve_against dir (replicate k ''..'') = take (length dir - k) dir"
proof (induction k arbitrary: dir)
  case 0
  then show ?case by simp
next
  case (Suc k)
  show ?case by (simp add: Suc butlast_conv_take)
qed

lemma resolve_against_plain:
  "''..'' \<notin> set cs \<Longrightarrow> resolve_against dir cs = dir @ cs"
  by (induction cs arbitrary: dir) auto

text \<open>
  The loop invariant of the walk: after \<open>step\<close> steps the components dropped from the
  reference directory are \<open>extra\<close>, and they are taken back by as many \<^verbatim>\<open>..\<close>.
\<close>

lemma walk_up_from_resolves:
  assumes "walk_up_from p r other_tail step = Inr rel"
    and "''..'' \<notin> set (tail p)"
    and "length extra = step"
  shows "\<not> rooted rel \<and> resolve_against (other_tail @ extra) (tail rel) = tail p"
  using assms
proof (induction p r other_tail step arbitrary: extra rule: walk_up_from.induct)
  case (1 p r other_tail step)
  show ?case
  proof (cases "is_relative_to p (Path r other_tail)")
    case True
    with "1.prems"(1)
    have rel: "rel = Path False (replicate step ''..'' @ drop (length other_tail) (tail p))"
      by (simp add: walk_up_from.simps)
    have pre: "take (length other_tail) (tail p) = other_tail"
      using True by (simp add: is_relative_to_def)
    have "''..'' \<notin> set (drop (length other_tail) (tail p))"
      using "1.prems"(2) by (meson in_set_dropD)
    then have "resolve_against (other_tail @ extra) (tail rel)
                 = other_tail @ drop (length other_tail) (tail p)"
      using "1.prems"(3)
      by (simp add: rel resolve_against_append resolve_against_dotdots resolve_against_plain)
    also have "\<dots> = tail p"
      using pre by (metis append_take_drop_id)
    finally show ?thesis by (simp add: rel)
  next
    case False
    with "1.prems"(1) have ne: "other_tail \<noteq> []" and nd: "last other_tail \<noteq> ''..''"
      and rec: "walk_up_from p r (butlast other_tail) (Suc step) = Inr rel"
      by (auto simp: walk_up_from.simps[of p r other_tail step] split: if_splits)
    have "\<not> rooted rel
            \<and> resolve_against (butlast other_tail @ (last other_tail # extra)) (tail rel) = tail p"
      using "1.IH"[OF False ne nd rec "1.prems"(2), of "last other_tail # extra"] "1.prems"(3)
      by simp
    moreover have "butlast other_tail @ (last other_tail # extra) = other_tail @ extra"
      using ne by (metis append.assoc append_Cons append_Nil append_butlast_last_id)
    ultimately show ?thesis by simp
  qed
qed

lemma walk_up_from_total:
  assumes "rooted p = r" and "''..'' \<notin> set other_tail"
  shows "\<exists>rel. walk_up_from p r other_tail step = Inr rel"
  using assms
proof (induction p r other_tail step rule: walk_up_from.induct)
  case (1 p r other_tail step)
  show ?case
  proof (cases "is_relative_to p (Path r other_tail)")
    case True
    then show ?thesis by (simp add: walk_up_from.simps)
  next
    case False
    then have ne: "other_tail \<noteq> []"
      using "1.prems"(1) by (auto simp: is_relative_to_def)
    then have nd: "last other_tail \<noteq> ''..''"
      using "1.prems"(2) last_in_set by metis
    have "''..'' \<notin> set (butlast other_tail)"
      using "1.prems"(2) by (meson in_set_butlastD)
    from "1.IH"[OF False ne nd "1.prems"(1) this]
    show ?thesis using False ne nd by (simp add: walk_up_from.simps[of p r other_tail step])
  qed
qed

lemma relative_to_walk_up_resolves:
  assumes "resolved target" and "resolved dir"
  shows "\<exists>rel. relative_to_walk_up target dir = Inr rel \<and> \<not> rooted rel \<and>
           resolve_against (tail dir) (tail rel) = tail target"
proof -
  have r: "rooted target = rooted dir"
    using assms by (simp add: resolved_def)
  have "''..'' \<notin> set (tail dir)"
    using assms(2) by (simp add: resolved_def)
  then obtain rel where rel: "walk_up_from target (rooted dir) (tail dir) 0 = Inr rel"
    using walk_up_from_total[OF r] by blast
  have "''..'' \<notin> set (tail target)"
    using assms(1) by (simp add: resolved_def)
  from walk_up_from_resolves[OF rel this, of "[]"]
  show ?thesis using rel by (simp add: relative_to_walk_up_def)
qed

text \<open>
  C1. For an output file and a target location of the output tree, both resolved
  paths, \<^verbatim>\<open>target.relative_to(file.parent, walk_up=True)\<close> returns a relative path,
  and resolving that path against the directory of the file gives exactly the target,
  wherever the two lie (sibling, ancestor, descendant or disjoint subtree). The two
  call sites are the reveal.js directory in \<^verbatim>\<open>__process_markdown_file\<close> and the copied
  theme in \<^verbatim>\<open>__copy_theme\<close>.
\<close>

theorem relative_path_points_at_target:
  assumes "resolved target" and "resolved (parent output_file)"
  shows "\<exists>rel. relative_to_walk_up target (parent output_file) = Inr rel \<and> \<not> rooted rel \<and>
           resolve_against (tail (parent output_file)) (tail rel) = tail target"
  using assms by (rule relative_to_walk_up_resolves)

theorem relative_path_points_at_target_witness:
  "resolved (Path True [''out'', ''assets'', ''reveal-js'']) \<and>
   resolved (parent (Path True [''out'', ''slides'', ''sub'', ''b.html''])) \<and>
   relative_to_walk_up (Path True [''out'', ''assets'', ''reveal-js''])
       (parent (Path True [''out'', ''slides'', ''sub'', ''b.html'']))
     = Inr (Path False [''..'', ''..'', ''assets'', ''reveal-js'']) \<and>
   resolve_against (tail (parent (Path True [''out'', ''slides'', ''sub'', ''b.html''])))
       [''..'', ''..'', ''assets'', ''reveal-js'']
     = [''out'', ''assets'', ''reveal-js'']"
proof -
  have t: "resolved (Path True [''out'', ''assets'', ''reveal-js''])"
    by (simp add: resolved_def)
  have d: "resolved (parent (Path True [''out'', ''slides'', ''sub'', ''b.html'']))"
    by (simp add: resolved_def parent_def)
  have r: "relative_to_walk_up (Path True [''out'', ''assets'', ''reveal-js''])
       (parent (Path True [''out'', ''slides'', ''sub'', ''b.html'']))
     = Inr (Path False [''..'', ''..'', ''assets'', ''reveal-js''])"
    by (simp add: relative_to_walk_up_def parent_def walk_up_from.simps is_relative_to_def)
  from relative_path_points_at_target[OF t d] r t d
  show ?thesis by simp
qed

section \<open>The output path of a Markdown file\<close>

lemma suffix_splits_name:
  assumes "suffix p = s" and "s \<noteq> []"
  shows "name p = take (length (name p) - length s) (name p) @ s"
proof -
  define n where "n = name p"
  define i where "i = rfind (CHR ''.'') n"
  have cond: "0 < i \<and> i < int (length n) - 1" and s: "s = drop (nat i) n"
    using assms by (auto simp: suffix_def Let_def n_def i_def split: if_splits)
  have "nat i \<le> length n"
    using cond by linarith
  then have "length n - length s = nat i"
    by (simp add: s)
  then show ?thesis
    by (simp add: s n_def[symmetric])
qed

lemma suffix_cong_name: "name p = name q \<Longrightarrow> suffix p = suffix q"
  by (simp add: suffix_def)

lemma with_suffix_md_html:
  assumes "with_suffix p ''.html'' = Inr q" and "suffix p = ''.md''"
  shows "q = Path (rooted p) (butlast (tail p) @ [take (length (name p) - length ''.md'') (name p) @ ''.html''])"
  using assms by (auto simp: with_suffix_def with_name_def Let_def split: if_splits)

lemma output_markup_path_of_md:
  assumes "output_markup_path_of g f = Inr out" and "suffix f = ''.md''"
    and "tail f \<noteq> tail (md_root_path g)"
  shows "\<exists>rel. rel \<noteq> [] \<and> tail f = tail (md_root_path g) @ rel \<and> rooted f = rooted (md_root_path g) \<and>
      out = Path (rooted (output_directory_path g))
              (tail (output_directory_path g) @ butlast rel
               @ [take (length (name f) - length ''.md'') (name f) @ ''.html''])"
proof -
  define rel where "rel = drop (length (tail (md_root_path g))) (tail f)"
  have under: "is_relative_to f (md_root_path g)"
    and ws: "with_suffix (joinpath (output_directory_path g) (Path False rel)) ''.html'' = Inr out"
    using assms(1)
    by (auto simp: output_markup_path_of_def relative_to_def rel_def split: if_splits sum.splits)
  have tf: "tail f = tail (md_root_path g) @ rel"
    using under by (metis append_take_drop_id is_relative_to_def rel_def)
  have ne: "rel \<noteq> []"
    using tf assms(3) by auto
  have nm: "name (joinpath (output_directory_path g) (Path False rel)) = name f"
    using ne tf by (simp add: name_def joinpath_def)
  have sf: "suffix (joinpath (output_directory_path g) (Path False rel)) = ''.md''"
    using suffix_cong_name[OF nm] assms(2) by simp
  have "out = Path (rooted (output_directory_path g))
              (butlast (tail (output_directory_path g) @ rel)
               @ [take (length (name f) - length ''.md'') (name f) @ ''.html''])"
    using with_suffix_md_html[OF ws sf] nm by (simp add: joinpath_def)
  then show ?thesis
    using ne tf under by (auto simp: butlast_append is_relative_to_def)
qed

lemma output_markup_path_of_root:
  assumes "output_markup_path_of g f = Inr out" and "tail f = tail (md_root_path g)"
  shows "length (tail out) = length (tail (output_directory_path g))"
  using assms
  by (auto simp: output_markup_path_of_def relative_to_def with_suffix_def with_name_def
      joinpath_def Let_def name_def split: if_splits sum.splits)

lemma output_markup_path_of_injective_on_md:
  assumes s1: "suffix f1 = ''.md''" and s2: "suffix f2 = ''.md''"
    and o1: "output_markup_path_of g f1 = Inr out1"
    and o2: "output_markup_path_of g f2 = Inr out2"
    and ne: "f1 \<noteq> f2"
  shows "out1 \<noteq> out2"
proof
  assume eq: "out1 = out2"
  have r1: "rooted f1 = rooted (md_root_path g)" and r2: "rooted f2 = rooted (md_root_path g)"
    using o1 o2
    by (auto simp: output_markup_path_of_def relative_to_def is_relative_to_def split: if_splits sum.splits)
  show False
  proof (cases "tail f1 = tail (md_root_path g)")
    case True
    note t1 = True
    show False
    proof (cases "tail f2 = tail (md_root_path g)")
      case True
      with t1 r1 r2 have "f1 = f2" by (simp add: path.expand)
      with ne show False by simp
    next
      case False
      from output_markup_path_of_md[OF o2 s2 False] obtain rel where
        "rel \<noteq> []" "out2 = Path (rooted (output_directory_path g))
              (tail (output_directory_path g) @ butlast rel
               @ [take (length (name f2) - length ''.md'') (name f2) @ ''.html''])" by blast
      then have "length (tail out2) > length (tail (output_directory_path g))" by simp
      with output_markup_path_of_root[OF o1 t1] eq show False by simp
    qed
  next
    case False
    note t1 = False
    from output_markup_path_of_md[OF o1 s1 False] obtain rel1 where
      rel1: "rel1 \<noteq> []" "tail f1 = tail (md_root_path g) @ rel1"
      "out1 = Path (rooted (output_directory_path g))
              (tail (output_directory_path g) @ butlast rel1
               @ [take (length (name f1) - length ''.md'') (name f1) @ ''.html''])" by blast
    show False
    proof (cases "tail f2 = tail (md_root_path g)")
      case True
      have "length (tail out1) > length (tail (output_directory_path g))"
        using rel1 by simp
      with output_markup_path_of_root[OF o2 True] eq show False by simp
    next
      case False
      from output_markup_path_of_md[OF o2 s2 False] obtain rel2 where
        rel2: "rel2 \<noteq> []" "tail f2 = tail (md_root_path g) @ rel2"
        "out2 = Path (rooted (output_directory_path g))
              (tail (output_directory_path g) @ butlast rel2
               @ [take (length (name f2) - length ''.md'') (name f2) @ ''.html''])" by blast
      from eq rel1(3) rel2(3)
      have b: "butlast rel1 = butlast rel2"
        and n: "take (length (name f1) - length ''.md'') (name f1) = take (length (name f2) - length ''.md'') (name f2)"
        by auto
      have "name f1 = take (length (name f1) - length ''.md'') (name f1) @ ''.md''"
        using suffix_splits_name[OF s1] by simp
      moreover have "name f2 = take (length (name f2) - length ''.md'') (name f2) @ ''.md''"
        using suffix_splits_name[OF s2] by simp
      ultimately have nn: "name f1 = name f2" using n by simp
      have "last rel1 = last rel2"
        using nn rel1 rel2 by (simp add: name_def)
      with b rel1(1) rel2(1) have "rel1 = rel2"
        by (metis append_butlast_last_id)
      with rel1(2) rel2(2) r1 r2 have "f1 = f2" by (simp add: path.expand)
      with ne show False by simp
    qed
  qed
qed

text \<open>
  C3 as stated fails: \<^verbatim>\<open>with_suffix\<close> replaces the suffix of a name, and the name
  \<^verbatim>\<open>.md\<close> of a hidden file has none, so \<^verbatim>\<open>.html\<close> is appended to it; the name
  \<^verbatim>\<open>.md.md\<close> has the suffix \<^verbatim>\<open>.md\<close>, which is replaced. Both files match
  \<^verbatim>\<open>*.md\<close>, lie under the source root and are mapped to \<^verbatim>\<open>.md.html\<close>.
\<close>

theorem output_paths_collide:
  "matches_md_glob (Path True [''src'', ''.md'']) \<and>
   matches_md_glob (Path True [''src'', ''.md.md'']) \<and>
   is_relative_to (Path True [''src'', ''.md'']) (md_root_path example_generator) \<and>
   is_relative_to (Path True [''src'', ''.md.md'']) (md_root_path example_generator) \<and>
   Path True [''src'', ''.md''] \<noteq> Path True [''src'', ''.md.md''] \<and>
   output_markup_path_of example_generator (Path True [''src'', ''.md''])
     = Inr (Path True [''out'', ''.md.html'']) \<and>
   output_markup_path_of example_generator (Path True [''src'', ''.md.md''])
     = Inr (Path True [''out'', ''.md.html''])"
  by (simp add: matches_md_glob_def output_markup_path_of_def example_generator_def
      relative_to_def is_relative_to_def joinpath_def with_suffix_def with_name_def name_def
      suffix_def rfind_def Let_def)

text \<open>
  C3, amended. Two distinct Markdown files under the source root whose names have the
  suffix \<^verbatim>\<open>.md\<close> in the sense of \<^verbatim>\<open>Path.suffix\<close> (a name with something before
  the last dot) are mapped to distinct output paths.
\<close>

theorem output_paths_injective:
  assumes "suffix f1 = ''.md''" and "suffix f2 = ''.md''"
    and "output_markup_path_of g f1 = Inr out1"
    and "output_markup_path_of g f2 = Inr out2"
    and "f1 \<noteq> f2"
  shows "out1 \<noteq> out2"
  using assms by (rule output_markup_path_of_injective_on_md)

theorem output_paths_injective_witness:
  "suffix (Path True [''src'', ''a.md'']) = ''.md'' \<and>
   suffix (Path True [''src'', ''sub'', ''a.md'']) = ''.md'' \<and>
   output_markup_path_of example_generator (Path True [''src'', ''a.md''])
     = Inr (Path True [''out'', ''a.html'']) \<and>
   output_markup_path_of example_generator (Path True [''src'', ''sub'', ''a.md''])
     = Inr (Path True [''out'', ''sub'', ''a.html'']) \<and>
   Path True [''src'', ''a.md''] \<noteq> Path True [''src'', ''sub'', ''a.md''] \<and>
   Path True [''out'', ''a.html''] \<noteq> Path True [''out'', ''sub'', ''a.html'']"
proof -
  have s1: "suffix (Path True [''src'', ''a.md'']) = ''.md''"
    by (simp add: suffix_def name_def rfind_def Let_def)
  have s2: "suffix (Path True [''src'', ''sub'', ''a.md'']) = ''.md''"
    by (simp add: suffix_def name_def rfind_def Let_def)
  have o1: "output_markup_path_of example_generator (Path True [''src'', ''a.md''])
              = Inr (Path True [''out'', ''a.html''])"
    by (simp add: output_markup_path_of_def example_generator_def relative_to_def
        is_relative_to_def joinpath_def with_suffix_def with_name_def name_def suffix_def
        rfind_def Let_def)
  have o2: "output_markup_path_of example_generator (Path True [''src'', ''sub'', ''a.md''])
              = Inr (Path True [''out'', ''sub'', ''a.html''])"
    by (simp add: output_markup_path_of_def example_generator_def relative_to_def
        is_relative_to_def joinpath_def with_suffix_def with_name_def name_def suffix_def
        rfind_def Let_def)
  have ne: "Path True [''src'', ''a.md''] \<noteq> Path True [''src'', ''sub'', ''a.md'']"
    by simp
  from output_paths_injective[OF s1 s2 o1 o2 ne] s1 s2 o1 o2 ne
  show ?thesis by simp
qed

section \<open>Rendering options\<close>

lemma map_of_collect_options:
  "map_of (foldl (\<lambda>options option.
              let v = cfg [''slides'', option]
              in if truthy v then AList.update option v options else options) acc opts) k
   = (if k \<in> set opts \<and> truthy (cfg [''slides'', k]) then Some (cfg [''slides'', k])
      else map_of acc k)"
  by (induction opts arbitrary: acc) (auto simp: Let_def update_conv')

lemma distinct_collect_options:
  "distinct (map fst acc) \<Longrightarrow>
   distinct (map fst (foldl (\<lambda>options option.
              let v = cfg [''slides'', option]
              in if truthy v then AList.update option v options else options) acc opts))"
  by (induction opts arbitrary: acc) (auto simp: Let_def distinct_update)

text \<open>
  C5. The options handed to the slide template hold exactly the options of the fixed
  list whose configured value is present (true in the Python condition, so neither
  \<^verbatim>\<open>None\<close> nor empty), each once and with its configured value; no entry is
  \<^verbatim>\<open>None\<close> or the empty string.
\<close>

theorem markdown_data_options_exact:
  "map_of (markdown_data_options cfg) option
     = (if option \<in> set rendering_options \<and> truthy (cfg [''slides'', option])
        then Some (cfg [''slides'', option]) else None)
   \<and> distinct (map fst (markdown_data_options cfg))
   \<and> map_of (markdown_data_options cfg) option \<noteq> Some NoneV
   \<and> map_of (markdown_data_options cfg) option \<noteq> Some (StrV [])"
proof -
  have m: "map_of (markdown_data_options cfg) option
     = (if option \<in> set rendering_options \<and> truthy (cfg [''slides'', option])
        then Some (cfg [''slides'', option]) else None)"
    by (simp add: markdown_data_options_def map_of_collect_options)
  have d: "distinct (map fst (markdown_data_options cfg))"
    unfolding markdown_data_options_def by (rule distinct_collect_options) simp
  have "map_of (markdown_data_options cfg) option \<noteq> Some NoneV"
    unfolding m by auto
  moreover have "map_of (markdown_data_options cfg) option \<noteq> Some (StrV [])"
    unfolding m by auto
  ultimately show ?thesis using m d by blast
qed

section \<open>URL themes\<close>

lemma copy_theme_url:
  assumes "is_absolute_url env theme = Inr True"
  shows "copy_theme env g file_using_theme_path theme w
           = (Inr (ThemeUrl theme),
              info (''Using theme '' @ quoted theme @ '' is an absolute URL, no copy necessary'') w)"
  using assms by (simp add: copy_theme_def)

lemma fs_info [simp]: "fs (info msg w) = fs w"
  by (simp add: info_def)

lemma cwd_info [simp]: "cwd (info msg w) = cwd w"
  by (simp add: info_def)

lemma fs_warning [simp]: "fs (warning msg w) = fs w"
  by (simp add: warning_def)

lemma cwd_warning [simp]: "cwd (warning msg w) = cwd w"
  by (simp add: warning_def)

text \<open>
  C4. A theme that \<^verbatim>\<open>__is_absolute_url\<close> accepts is returned as it is: the file
  system is left unchanged (one log line is added), and a configured theme of this kind
  reaches the template as the URL string.
\<close>

theorem url_theme_not_copied:
  assumes "is_absolute_url env theme = Inr True"
  shows "copy_theme env g file_using_theme_path theme w
           = (Inr (ThemeUrl theme),
              info (''Using theme '' @ quoted theme @ '' is an absolute URL, no copy necessary'') w)
         \<and> fs (snd (copy_theme env g file_using_theme_path theme w)) = fs w
         \<and> (config g [section, ''theme''] = StrV theme \<and> theme \<noteq> [] \<longrightarrow>
              fst (configured_theme env g section file_using_theme_path w)
                = Inr (Some (ThemeUrl theme)))"
  using copy_theme_url[OF assms]
  by (simp add: configured_theme_def)

theorem url_theme_not_copied_witness:
  "is_absolute_url example_env ''https://example.com/t.css'' = Inr True \<and>
   fst (copy_theme example_env example_generator (Path True [''out'', ''a.html''])
          ''https://example.com/t.css'' example_world)
     = Inr (ThemeUrl ''https://example.com/t.css'') \<and>
   fs (snd (copy_theme example_env example_generator (Path True [''out'', ''a.html''])
          ''https://example.com/t.css'' example_world)) = fs example_world \<and>
   fst (configured_theme example_env
          (example_generator\<lparr>config :=
             example_config([''slides'', ''theme''] := StrV ''https://example.com/t.css'')\<rparr>)
          ''slides'' (Path True [''out'', ''a.html'']) example_world)
     = Inr (Some (ThemeUrl ''https://example.com/t.css''))"
proof -
  have u: "is_absolute_url example_env ''https://example.com/t.css'' = Inr True"
    by (simp add: is_absolute_url_def example_env_def urlsplit_scheme_def Let_def)
  from url_theme_not_copied[OF u, of example_generator "Path True [''out'', ''a.html'']"
      example_world]
  have a: "fst (copy_theme example_env example_generator (Path True [''out'', ''a.html''])
          ''https://example.com/t.css'' example_world)
     = Inr (ThemeUrl ''https://example.com/t.css'')"
    and b: "fs (snd (copy_theme example_env example_generator (Path True [''out'', ''a.html''])
          ''https://example.com/t.css'' example_world)) = fs example_world"
    by simp_all
  from url_theme_not_copied[OF u,
      of "example_generator\<lparr>config :=
             example_config([''slides'', ''theme''] := StrV ''https://example.com/t.css'')\<rparr>"
         "Path True [''out'', ''a.html'']" example_world "''slides''"]
  have c: "fst (configured_theme example_env
          (example_generator\<lparr>config :=
             example_config([''slides'', ''theme''] := StrV ''https://example.com/t.css'')\<rparr>)
          ''slides'' (Path True [''out'', ''a.html'']) example_world)
     = Inr (Some (ThemeUrl ''https://example.com/t.css''))"
    by simp
  from u a b c show ?thesis by simp
qed

section \<open>Unfolding on concrete inputs\<close>

lemmas path_defs = parent_def name_def joinpath_def parse_path_def str_path_def suffix_def stem_def
  rfind_def with_suffix_def with_name_def is_relative_to_def relative_to_def relative_to_walk_up_def
  walk_up_from.simps absolute_def

lemmas fs_defs = exists_def locate_def is_dir_def read_text_def write_text_def mkdir_parents_def
  samefile_def copyfile_def shutil_copy_def basename_def resolve_def

lemmas run_defs = create_file_def copy_file_def copy_tree_def copy_def copy_to_output_def
  copy_to_output_relative_to_md_root_def copy_images_def image_locations_def is_absolute_url_def
  copy_theme_def configured_theme_def output_markup_path_of_def write_markup_def
  process_markdown_file_def index_entry_def markdown_data_options_def

lemmas example_defs = example_env_def example_config_def example_generator_def example_fs_def
  example_world_def urlsplit_scheme_def ascii_lower_def

section \<open>Index entries\<close>

lemma write_markup_InrE:
  assumes "write_markup env g md_file w = (Inr (metadata, markdown, out, markup), w2)"
  obtains content relative_revealjs_path relative_theme_path w1 where
    "read_text (fs w) (cwd w) md_file = Inr content"
    "frontmatter_parse env content = Inr (metadata, markdown)"
    "output_markup_path_of g md_file = Inr out"
    "relative_to_walk_up (output_revealjs_path g) (parent out) = Inr relative_revealjs_path"
    "configured_theme env g ''slides'' out
       (info (''Processing markdown file: '' @ quoted (str_path md_file)) w)
       = (Inr relative_theme_path, w1)"
    "slideshow_template env (fs w1) (cwd w1) (config g [''slides'', ''template''])
        \<lparr>sv_theme = relative_theme_path,
         sv_revealjs_path = relative_revealjs_path,
         sv_markdown_data_options = markdown_data_options (config g),
         sv_markdown = markdown,
         sv_revealjs_config = config g [''reveal.js'']\<rparr> = Inr markup"
    "create_file out markup w1 = (Inr (), w2)"
proof -
  let ?w = "info (''Processing markdown file: '' @ quoted (str_path md_file)) w"
  note d = write_markup_def Let_def
  obtain content where c: "read_text (fs ?w) (cwd ?w) md_file = Inr content"
    using assms by (cases "read_text (fs ?w) (cwd ?w) md_file") (simp_all add: d)
  obtain m md where p: "frontmatter_parse env content = Inr (m, md)"
    using assms c by (cases "frontmatter_parse env content") (auto simp add: d)
  obtain o' where o: "output_markup_path_of g md_file = Inr o'"
    using assms c p by (cases "output_markup_path_of g md_file") (simp_all add: d)
  obtain rr where rr: "relative_to_walk_up (output_revealjs_path g) (parent o') = Inr rr"
    using assms c p o
    by (cases "relative_to_walk_up (output_revealjs_path g) (parent o')") (simp_all add: d)
  obtain rt w1 where t: "configured_theme env g ''slides'' o' ?w = (Inr rt, w1)"
    using assms c p o rr
    by (cases "configured_theme env g ''slides'' o' ?w"; cases "fst (configured_theme env g ''slides'' o' ?w)")
       (simp_all add: d)
  let ?vars = "\<lparr>sv_theme = rt, sv_revealjs_path = rr,
         sv_markdown_data_options = markdown_data_options (config g),
         sv_markdown = md, sv_revealjs_config = config g [''reveal.js'']\<rparr>"
  obtain mk where mk: "slideshow_template env (fs w1) (cwd w1) (config g [''slides'', ''template'']) ?vars = Inr mk"
    using assms c p o rr t
    by (cases "slideshow_template env (fs w1) (cwd w1) (config g [''slides'', ''template'']) ?vars")
       (simp_all add: d)
  obtain u w2' where cf: "create_file o' mk w1 = (Inr u, w2')"
    using assms c p o rr t mk
    by (cases "create_file o' mk w1"; cases "fst (create_file o' mk w1)") (simp_all add: d)
  have "m = metadata \<and> md = markdown \<and> o' = out \<and> mk = markup \<and> w2' = w2"
    using assms c p o rr t mk cf by (simp add: d)
  with c p o rr t mk cf that show thesis by simp
qed

lemma write_markup_metadata:
  assumes "write_markup env g md_file w = (Inr (metadata, markdown, out, markup), w')"
  shows "\<exists>content. read_text (fs w) (cwd w) md_file = Inr content
           \<and> frontmatter_parse env content = Inr (metadata, markdown)"
  using write_markup_InrE[OF assms] by metis

lemma process_markdown_file_InrE:
  assumes "process_markdown_file env g md_file w = (Inr (metadata, out), w3)"
  obtains markdown markup w2 where
    "write_markup env g md_file w = (Inr (metadata, markdown, out, markup), w2)"
    "copy_images env g md_file markdown w2 = (Inr (), w3)"
proof -
  obtain r w2 where wm: "write_markup env g md_file w = (r, w2)"
    by (cases "write_markup env g md_file w")
  obtain m md o' mk where r: "r = Inr (m, md, o', mk)"
    using assms wm by (cases r) (auto simp: process_markdown_file_def)
  obtain r3 w3' where ci: "copy_images env g md_file md w2 = (r3, w3')"
    by (cases "copy_images env g md_file md w2")
  have "r3 = Inr () \<and> m = metadata \<and> o' = out \<and> w3' = w3"
    using assms wm r ci by (cases r3) (auto simp: process_markdown_file_def)
  with wm r ci that show thesis by simp
qed

lemma process_markdown_file_metadata:
  assumes "process_markdown_file env g md_file w = (Inr (metadata, out), w')"
  shows "\<exists>content markdown. read_text (fs w) (cwd w) md_file = Inr content
           \<and> frontmatter_parse env content = Inr (metadata, markdown)"
proof -
  from process_markdown_file_InrE[OF assms] obtain markdown markup w2 where
    "write_markup env g md_file w = (Inr (metadata, markdown, out, markup), w2)"
    by metis
  from write_markup_metadata[OF this] show ?thesis by blast
qed

lemma process_each_ConsE:
  assumes "process_each env g (md_file # md_files) slideshows w = (Inr result, w')"
  obtains metadata out w1 rel where
    "process_markdown_file env g md_file w = (Inr (metadata, out), w1)"
    "relative_to out (output_directory_path g) = Inr rel"
    "process_each env g md_files (slideshows @ [index_entry metadata md_file rel]) w1
       = (Inr result, w')"
proof -
  obtain r w1 where pf: "process_markdown_file env g md_file w = (r, w1)"
    by (cases "process_markdown_file env g md_file w")
  obtain m o' where r: "r = Inr (m, o')"
    using assms pf by (cases r) auto
  obtain rel where rel: "relative_to o' (output_directory_path g) = Inr rel"
    using assms pf r by (cases "relative_to o' (output_directory_path g)") auto
  have "process_each env g md_files (slideshows @ [index_entry m md_file rel]) w1 = (Inr result, w')"
    using assms pf r rel by simp
  with pf r rel that show thesis by simp
qed

lemma expected_titles_Cons:
  assumes "process_markdown_file env g md_file w = (Inr (metadata, out), w1)"
  shows "expected_titles env g (md_file # md_files) w
           = title (index_entry metadata md_file rel) # expected_titles env g md_files w1"
proof -
  from process_markdown_file_metadata[OF assms] obtain content markdown where
    "read_text (fs w) (cwd w) md_file = Inr content"
    "frontmatter_parse env content = Inr (metadata, markdown)" by blast
  then show ?thesis by (simp add: assms index_entry_def)
qed

lemma process_each_titles:
  assumes "process_each env g md_files slideshows w = (Inr result, w')"
  shows "take (length slideshows) result = slideshows \<and>
         length result = length slideshows + length md_files \<and>
         map title (drop (length slideshows) result) = expected_titles env g md_files w"
  using assms
proof (induction md_files arbitrary: slideshows w)
  case Nil
  then show ?case by simp
next
  case (Cons md_file md_files)
  show ?case
  proof (rule process_each_ConsE[OF Cons.prems])
    fix metadata out w1 rel
    assume pf: "process_markdown_file env g md_file w = (Inr (metadata, out), w1)"
      and rest: "process_each env g md_files (slideshows @ [index_entry metadata md_file rel]) w1
                 = (Inr result, w')"
    let ?e = "index_entry metadata md_file rel"
    from Cons.IH[OF rest]
    have t: "take (Suc (length slideshows)) result = slideshows @ [?e]"
      and n: "length result = Suc (length slideshows) + length md_files"
      and l: "map title (drop (Suc (length slideshows)) result)
                = expected_titles env g md_files w1"
      by simp_all
    have len: "length slideshows < length result"
      using n by simp
    have "take (length slideshows) (take (Suc (length slideshows)) result)
            = take (length slideshows) (slideshows @ [?e])"
      by (simp only: t)
    then have t1: "take (length slideshows) result = slideshows"
      by simp
    have "take (Suc (length slideshows)) result ! length slideshows
            = (slideshows @ [?e]) ! length slideshows"
      by (simp only: t)
    then have nth: "result ! length slideshows = ?e"
      by simp
    have d: "drop (length slideshows) result = ?e # drop (Suc (length slideshows)) result"
      using len nth by (simp add: Cons_nth_drop_Suc[symmetric])
    have "map title (drop (length slideshows) result)
            = expected_titles env g (md_file # md_files) w"
      by (simp only: d list.map l expected_titles_Cons[OF pf, of md_files rel])
    with t1 n show ?thesis by simp
  qed
qed

text \<open>
  C6. In directory mode the loop over the Markdown files gives one index entry per
  file, in order. The title of the entry of a file is the \<^verbatim>\<open>title\<close> field of the
  front matter of that file, as it is read when the run comes to it, when there is such
  a field, and the stem of the file name (the base name without its suffix) when there
  is none.
\<close>

theorem index_titles_fall_back_to_stem:
  assumes "process_each env g md_files [] w = (Inr slideshows, w')"
  shows "length slideshows = length md_files \<and>
         map title slideshows = expected_titles env g md_files w"
  using process_each_titles[OF assms] by simp

theorem index_titles_fall_back_to_stem_witness:
  "read_text (fs example_index_world) (cwd example_index_world)
       (Path True [''src'', ''slides'', ''a.md'']) = Inr ''title: Intro'' \<and>
   read_text (fs example_index_world) (cwd example_index_world)
       (Path True [''src'', ''slides'', ''sub'', ''b.md'']) = Inr ''# B'' \<and>
   fst (process_each example_index_env example_generator
          [Path True [''src'', ''slides'', ''a.md''],
           Path True [''src'', ''slides'', ''sub'', ''b.md'']] [] example_index_world)
     = Inr [\<lparr>title = StrV ''Intro'', location = Path False [''slides'', ''a.html'']\<rparr>,
            \<lparr>title = StrV ''b'', location = Path False [''slides'', ''sub'', ''b.html'']\<rparr>] \<and>
   expected_titles example_index_env example_generator
       [Path True [''src'', ''slides'', ''a.md''],
        Path True [''src'', ''slides'', ''sub'', ''b.md'']] example_index_world
     = [StrV ''Intro'', StrV ''b'']"
proof -
  note defs = path_defs fs_defs run_defs example_defs example_index_env_def
    example_index_world_def Let_def
  have a: "read_text (fs example_index_world) (cwd example_index_world)
       (Path True [''src'', ''slides'', ''a.md'']) = Inr ''title: Intro''"
    and b: "read_text (fs example_index_world) (cwd example_index_world)
       (Path True [''src'', ''slides'', ''sub'', ''b.md'']) = Inr ''# B''"
    by (simp_all add: defs)
  have r: "fst (process_each example_index_env example_generator
          [Path True [''src'', ''slides'', ''a.md''],
           Path True [''src'', ''slides'', ''sub'', ''b.md'']] [] example_index_world)
     = Inr [\<lparr>title = StrV ''Intro'', location = Path False [''slides'', ''a.html'']\<rparr>,
            \<lparr>title = StrV ''b'', location = Path False [''slides'', ''sub'', ''b.html'']\<rparr>]"
    by (simp add: defs)
  then have "process_each example_index_env example_generator
          [Path True [''src'', ''slides'', ''a.md''],
           Path True [''src'', ''slides'', ''sub'', ''b.md'']] [] example_index_world
     = (Inr [\<lparr>title = StrV ''Intro'', location = Path False [''slides'', ''a.html'']\<rparr>,
             \<lparr>title = StrV ''b'', location = Path False [''slides'', ''sub'', ''b.html'']\<rparr>],
        snd (process_each example_index_env example_generator
          [Path True [''src'', ''slides'', ''a.md''],
           Path True [''src'', ''slides'', ''sub'', ''b.md'']] [] example_index_world))"
    by (metis prod.collapse)
  from index_titles_fall_back_to_stem[OF this] a b r show ?thesis by simp
qed

section \<open>Settings that are not true\<close>

text \<open>Only the configuration field of the generator is read for settings.\<close>

lemma copy_to_output_config [simp]:
  "copy_to_output env (g\<lparr>config := c\<rparr>) = copy_to_output env g"
  by (simp add: fun_eq_iff copy_to_output_def cong: sum.case_cong prod.case_cong)

lemma copy_to_output_relative_to_md_root_config [simp]:
  "copy_to_output_relative_to_md_root env (g\<lparr>config := c\<rparr>)
     = copy_to_output_relative_to_md_root env g"
  by (simp add: fun_eq_iff copy_to_output_relative_to_md_root_def cong: sum.case_cong prod.case_cong if_cong)

lemma copy_each_image_config [simp]:
  "copy_each_image env (g\<lparr>config := c\<rparr>) md_file locs w = copy_each_image env g md_file locs w"
  by (induction locs arbitrary: w) (simp_all split: sum.splits prod.splits)

lemma copy_images_config [simp]:
  "copy_images env (g\<lparr>config := c\<rparr>) = copy_images env g"
  by (simp add: fun_eq_iff copy_images_def)

lemma copy_theme_config [simp]:
  "copy_theme env (g\<lparr>config := c\<rparr>) = copy_theme env g"
  by (simp add: fun_eq_iff copy_theme_def Let_def cong: sum.case_cong prod.case_cong bool.case_cong)

lemma output_markup_path_of_config [simp]:
  "output_markup_path_of (g\<lparr>config := c\<rparr>) = output_markup_path_of g"
  by (simp add: fun_eq_iff output_markup_path_of_def cong: sum.case_cong)

text \<open>
  Two configurations agree when they give the same value wherever one of them gives a
  true value and at every key that is not tested for presence.
\<close>

lemma configured_theme_agree:
  assumes "\<And>k. truthy (c k) \<or> truthy (c' k) \<or> k \<notin> set presence_tested_keys \<Longrightarrow> c k = c' k"
  shows "configured_theme env (g\<lparr>config := c\<rparr>) section file w
           = configured_theme env (g\<lparr>config := c'\<rparr>) section file w"
proof (cases "truthy (c [section, ''theme'']) \<or> truthy (c' [section, ''theme''])")
  case True
  then have "c [section, ''theme''] = c' [section, ''theme'']"
    using assms by blast
  then show ?thesis
    by (simp add: configured_theme_def Let_def
        cong: if_cong pyvalue.case_cong sum.case_cong prod.case_cong)
next
  case False
  then show ?thesis by (simp add: configured_theme_def)
qed

lemma option_step_agree:
  assumes "\<And>k. truthy (c k) \<or> truthy (c' k) \<or> k \<notin> set presence_tested_keys \<Longrightarrow> c k = c' k"
  shows "(let v = c [''slides'', option] in if truthy v then AList.update option v acc else acc)
       = (let v = c' [''slides'', option] in if truthy v then AList.update option v acc else acc)"
proof (cases "truthy (c [''slides'', option]) \<or> truthy (c' [''slides'', option])")
  case True
  then have "c [''slides'', option] = c' [''slides'', option]"
    using assms by blast
  then show ?thesis by simp
next
  case False
  then show ?thesis by simp
qed

lemma markdown_data_options_agree:
  assumes "\<And>k. truthy (c k) \<or> truthy (c' k) \<or> k \<notin> set presence_tested_keys \<Longrightarrow> c k = c' k"
  shows "markdown_data_options c = markdown_data_options c'"
proof -
  have "(\<lambda>options option. let v = c [''slides'', option]
              in if truthy v then AList.update option v options else options)
      = (\<lambda>options option. let v = c' [''slides'', option]
              in if truthy v then AList.update option v options else options)"
    using option_step_agree[OF assms] by (intro ext)
  then show ?thesis by (simp only: markdown_data_options_def)
qed

lemma untested_keys:
  "[''slides'', ''template''] \<notin> set presence_tested_keys"
  "[''reveal.js''] \<notin> set presence_tested_keys"
  "[''index'', ''template''] \<notin> set presence_tested_keys"
  "[''index'', ''title''] \<notin> set presence_tested_keys"
  by (simp_all add: presence_tested_keys_def rendering_options_def)

lemma write_markup_agree:
  assumes "\<And>k. truthy (c k) \<or> truthy (c' k) \<or> k \<notin> set presence_tested_keys \<Longrightarrow> c k = c' k"
  shows "write_markup env (g\<lparr>config := c\<rparr>) md_file w = write_markup env (g\<lparr>config := c'\<rparr>) md_file w"
proof -
  have t: "c [''slides'', ''template''] = c' [''slides'', ''template'']"
    and r: "c [''reveal.js''] = c' [''reveal.js'']"
    using assms untested_keys by blast+
  show ?thesis
    unfolding write_markup_def
    by (simp add: t r markdown_data_options_agree[OF assms]
        configured_theme_agree[OF assms] cong: sum.case_cong prod.case_cong)
qed

lemma process_markdown_file_agree:
  assumes "\<And>k. truthy (c k) \<or> truthy (c' k) \<or> k \<notin> set presence_tested_keys \<Longrightarrow> c k = c' k"
  shows "process_markdown_file env (g\<lparr>config := c\<rparr>) md_file w
           = process_markdown_file env (g\<lparr>config := c'\<rparr>) md_file w"
  unfolding process_markdown_file_def
  by (simp add: write_markup_agree[OF assms] cong: sum.case_cong prod.case_cong)

lemma process_each_agree:
  assumes "\<And>k. truthy (c k) \<or> truthy (c' k) \<or> k \<notin> set presence_tested_keys \<Longrightarrow> c k = c' k"
  shows "process_each env (g\<lparr>config := c\<rparr>) md_files slideshows w
           = process_each env (g\<lparr>config := c'\<rparr>) md_files slideshows w"
proof (induction md_files arbitrary: slideshows w)
  case Nil
  show ?case by simp
next
  case (Cons md_file md_files)
  show ?case
    by (simp add: process_markdown_file_agree[OF assms] Cons.IH
        split: sum.splits prod.splits)
qed

lemma process_markdown_directory_agree:
  assumes "\<And>k. truthy (c k) \<or> truthy (c' k) \<or> k \<notin> set presence_tested_keys \<Longrightarrow> c k = c' k"
  shows "process_markdown_directory env (g\<lparr>config := c\<rparr>) w
           = process_markdown_directory env (g\<lparr>config := c'\<rparr>) w"
proof -
  have t: "c [''index'', ''template''] = c' [''index'', ''template'']"
    and r: "c [''index'', ''title''] = c' [''index'', ''title'']"
    using assms untested_keys by blast+
  show ?thesis
    unfolding process_markdown_directory_def
    by (simp add: t r process_each_agree[OF assms]
        configured_theme_agree[OF assms] Let_def cong: sum.case_cong prod.case_cong)
qed

lemma process_markdown_agree:
  assumes "\<And>k. truthy (c k) \<or> truthy (c' k) \<or> k \<notin> set presence_tested_keys \<Longrightarrow> c k = c' k"
  shows "process_markdown env (g\<lparr>config := c\<rparr>) input_path w
           = process_markdown env (g\<lparr>config := c'\<rparr>) input_path w"
  unfolding process_markdown_def
  by (simp add: process_markdown_file_agree[OF assms]
        process_markdown_directory_agree[OF assms] Let_def
        cong: if_cong sum.case_cong prod.case_cong)

lemma empty_setting_agrees:
  assumes "key \<in> set presence_tested_keys" and "c key = StrV []"
  shows "truthy (c k) \<or> truthy ((c(key := NoneV)) k) \<or> k \<notin> set presence_tested_keys
           \<Longrightarrow> c k = (c(key := NoneV)) k"
  using assms by (cases "k = key") auto

text \<open>
  C10. A theme or rendering option that is configured as the empty string is treated
  as an absent one: the whole run is the run of the configuration without that
  setting, no theme is resolved or copied for it, and the option is not among the
  options handed to the template.
\<close>

theorem empty_setting_is_absent:
  assumes "key \<in> set presence_tested_keys" and "config g key = StrV []"
  shows "process_markdown env g input_path w
           = process_markdown env (g\<lparr>config := (config g)(key := NoneV)\<rparr>) input_path w
       \<and> (\<forall>section. key = [section, ''theme''] \<longrightarrow>
             configured_theme env g section file w = (Inr None, w))
       \<and> (\<forall>option. key = [''slides'', option] \<longrightarrow>
             map_of (markdown_data_options (config g)) option = None)"
proof -
  have "process_markdown env (g\<lparr>config := config g\<rparr>) input_path w
           = process_markdown env (g\<lparr>config := (config g)(key := NoneV)\<rparr>) input_path w"
    by (rule process_markdown_agree)
       (rule empty_setting_agrees[where c = "config g" and key = key, OF assms])
  moreover have "\<forall>section. key = [section, ''theme''] \<longrightarrow>
             configured_theme env g section file w = (Inr None, w)"
    using assms(2) by (auto simp: configured_theme_def)
  moreover have "\<forall>option. key = [''slides'', option] \<longrightarrow>
             map_of (markdown_data_options (config g)) option = None"
    using assms(2) by (auto simp: markdown_data_options_def map_of_collect_options)
  ultimately show ?thesis by simp
qed


theorem empty_setting_is_absent_witness:
  "[''slides'', ''theme''] \<in> set presence_tested_keys \<and>
   config (example_generator\<lparr>config := example_config([''slides'', ''theme''] := StrV [])\<rparr>)
     [''slides'', ''theme''] = StrV [] \<and>
   process_markdown example_env
       (example_generator\<lparr>config := example_config([''slides'', ''theme''] := StrV [])\<rparr>)
       (Path True [''src'', ''a.md'']) example_world
     = process_markdown example_env
         (example_generator\<lparr>config :=
            (example_config([''slides'', ''theme''] := StrV []))([''slides'', ''theme''] := NoneV)\<rparr>)
         (Path True [''src'', ''a.md'']) example_world \<and>
   configured_theme example_env
       (example_generator\<lparr>config := example_config([''slides'', ''theme''] := StrV [])\<rparr>)
       ''slides'' (Path True [''out'', ''a.html'']) example_world
     = (Inr None, example_world)"
proof -
  let ?g = "example_generator\<lparr>config := example_config([''slides'', ''theme''] := StrV [])\<rparr>"
  have k: "[''slides'', ''theme''] \<in> set presence_tested_keys"
    by (simp add: presence_tested_keys_def)
  have v: "config ?g [''slides'', ''theme''] = StrV []"
    by simp
  from empty_setting_is_absent[OF k v, of example_env "Path True [''src'', ''a.md'']"
      example_world "Path True [''out'', ''a.html'']"] k v
  show ?thesis by simp
qed

section \<open>The file system tree\<close>

lemma os_walk_plain:
  "''..'' \<notin> set cs \<Longrightarrow> os_walk t cur cs = Inr (cur @ cs)"
  by (induction cs arbitrary: cur) auto

lemma locate_resolved:
  "resolved p \<Longrightarrow> locate t wd p = Inr (tail p)"
  by (simp add: locate_def resolved_def os_walk_plain)

lemma stat_append:
  "stat t (xs @ ys) = (case stat t xs of Inl e \<Rightarrow> Inl e | Inr n \<Rightarrow> stat n ys)" 
proof (induction t xs rule: stat.induct)
  case (1 n)
  then show ?case by simp
next
  case (2 c x xs)
  then show ?case by simp
next
  case (3 es x xs)
  then show ?case by (simp split: option.splits)
qed

lemma stat_snoc_parent:
  assumes "stat t (l @ [x]) = Inr n"
  shows "\<exists>es. stat t l = Inr (Dir es)"
proof -
  from assms obtain m where m: "stat t l = Inr m" and s: "stat m [x] = Inr n"
    by (auto simp: stat_append split: sum.splits)
  from s obtain es where "m = Dir es" by (cases m) auto
  with m show ?thesis by simp
qed

lemma stat_prefix_exists:
  assumes "stat t (xs @ ys) = Inr n"
  shows "\<exists>m. stat t xs = Inr m"
  using assms by (auto simp: stat_append split: sum.splits)

subsection \<open>Writing an entry\<close>

lemma stat_put_same:
  "put l new t = Inr t' \<Longrightarrow> stat t' l = Inr new"
proof (induction l new t arbitrary: t' rule: put.induct)
  case (1 new t)
  then show ?case by simp
next
  case (2 x xs new c)
  then show ?case by simp
next
  case (3 x xs new es)
  show ?case
  proof (cases "xs = []")
    case True
    with "3.prems" show ?thesis by (auto simp: update_conv')
  next
    case False
    with "3.prems" obtain n n' where n: "map_of es x = Some n" and p: "put xs new n = Inr n'"
      and t': "t' = Dir (AList.update x n' es)"
      by (auto split: option.splits sum.splits)
    from "3.IH"[OF False n p] t' show ?thesis by (simp add: update_conv')
  qed
qed

lemma put_succeeds:
  "stat t (butlast l) = Inr (Dir es) \<Longrightarrow> l \<noteq> [] \<Longrightarrow> \<exists>t'. put l new t = Inr t'"
proof (induction l new t arbitrary: es rule: put.induct)
  case (1 new t)
  then show ?case by simp
next
  case (2 x xs new c)
  then show ?case by (cases xs) auto
next
  case (3 x xs new es')
  show ?case
  proof (cases "xs = []")
    case True
    then show ?thesis by simp
  next
    case False
    with "3.prems"(1) obtain n where n: "map_of es' x = Some n"
      and s: "stat n (butlast xs) = Inr (Dir es)"
      by (auto split: option.splits)
    from "3.IH"[OF False n s False] obtain n' where "put xs new n = Inr n'" by blast
    with n False show ?thesis by simp
  qed
qed

lemma stat_put_other:
  "put l new t = Inr t' \<Longrightarrow> \<not> (take (length l) q = l) \<Longrightarrow> \<not> (take (length q) l = q) \<Longrightarrow>
   stat t' q = stat t q"
proof (induction l new t arbitrary: t' q rule: put.induct)
  case (1 new t)
  then show ?case by simp
next
  case (2 x xs new c)
  then show ?case by simp
next
  case (3 x xs new es)
  from "3.prems"(3) obtain y ys where q: "q = y # ys" by (cases q) auto
  show ?case
  proof (cases "y = x")
    case False
    with "3.prems"(1) q show ?thesis
      by (auto simp: update_conv' split: option.splits sum.splits if_splits)
  next
    case True
    show ?thesis
    proof (cases "xs = []")
      case True
      with "3.prems"(2) q \<open>y = x\<close> show ?thesis by simp
    next
      case False
      with "3.prems"(1) obtain n n' where n: "map_of es x = Some n" and p: "put xs new n = Inr n'"
        and t': "t' = Dir (AList.update x n' es)"
        by (auto split: option.splits sum.splits)
      have "stat n' ys = stat n ys"
        using "3.IH"[OF False n p, of ys] "3.prems"(2,3) q \<open>y = x\<close> by simp
      with n t' q \<open>y = x\<close> show ?thesis by (simp add: update_conv')
    qed
  qed
qed

subsection \<open>Creating directories\<close>

lemma makedirs_is_dir:
  "makedirs l t = Inr t' \<Longrightarrow> \<exists>es. stat t' l = Inr (Dir es)"
proof (induction l t arbitrary: t' rule: makedirs.induct)
  case (1 es)
  then show ?case by auto
next
  case (2 c)
  then show ?case by simp
next
  case (3 x xs c)
  then show ?case by simp
next
  case (4 x xs es)
  let ?n = "case map_of es x of None \<Rightarrow> Dir [] | Some n \<Rightarrow> n"
  from "4.prems" obtain n' where m: "makedirs xs ?n = Inr n'" and t': "t' = Dir (AList.update x n' es)"
    by (auto split: sum.splits)
  from "4.IH"[OF m] t' show ?case by (simp add: update_conv')
qed

lemma makedirs_succeeds:
  "(\<exists>es. stat t l = Inr (Dir es)) \<or> stat t l = Inl FileNotFoundError
     \<Longrightarrow> \<exists>t'. makedirs l t = Inr t'"
proof (induction l t rule: makedirs.induct)
  case (1 es)
  then show ?case by simp
next
  case (2 c)
  then show ?case by simp
next
  case (3 x xs c)
  then show ?case by simp
next
  case (4 x xs es')
  let ?n = "case map_of es' x of None \<Rightarrow> Dir [] | Some n \<Rightarrow> n"
  have "(\<exists>es. stat ?n xs = Inr (Dir es)) \<or> stat ?n xs = Inl FileNotFoundError"
  proof (cases "map_of es' x")
    case None
    then show ?thesis by (cases xs) auto
  next
    case (Some n)
    with "4.prems" show ?thesis by simp
  qed
  from "4.IH"[OF this] show ?case by (auto split: sum.splits)
qed

lemma makedirs_keeps_files:
  "makedirs l t = Inr t' \<Longrightarrow> stat t' q = Inr (File c) \<longleftrightarrow> stat t q = Inr (File c)"
proof (induction l t arbitrary: t' q rule: makedirs.induct)
  case (1 es)
  then show ?case by simp
next
  case (2 c)
  then show ?case by simp
next
  case (3 x xs c)
  then show ?case by simp
next
  case (4 x xs es)
  let ?n = "case map_of es x of None \<Rightarrow> Dir [] | Some n \<Rightarrow> n"
  from "4.prems" obtain n' where m: "makedirs xs ?n = Inr n'" and t': "t' = Dir (AList.update x n' es)"
    by (auto split: sum.splits)
  show ?case
  proof (cases q)
    case Nil
    then show ?thesis using t' by auto
  next
    case (Cons y ys)
    show ?thesis
    proof (cases "y = x")
      case False
      then show ?thesis using t' Cons by (simp add: update_conv')
    next
      case True
      have ih: "stat n' ys = Inr (File c) \<longleftrightarrow> stat ?n ys = Inr (File c)"
        by (rule "4.IH"[OF m])
      show ?thesis
      proof (cases "map_of es x")
        case None
        have "stat (Dir []) ys \<noteq> Inr (File c)" by (cases ys) auto
        with ih None t' Cons True show ?thesis by (simp add: update_conv')
      next
        case (Some n)
        with ih t' Cons True show ?thesis by (simp add: update_conv')
      qed
    qed
  qed
qed

lemma makedirs_new_dirs:
  "makedirs l t = Inr t' \<Longrightarrow> stat t' q = Inr (Dir es) \<Longrightarrow>
   (\<exists>es0. stat t q = Inr (Dir es0)) \<or> take (length q) l = q"
proof (induction l t arbitrary: t' q es rule: makedirs.induct)
  case (1 es)
  then show ?case by auto
next
  case (2 c)
  then show ?case by simp
next
  case (3 x xs c)
  then show ?case by simp
next
  case (4 x xs es')
  let ?n = "case map_of es' x of None \<Rightarrow> Dir [] | Some n \<Rightarrow> n"
  from "4.prems"(1) obtain n' where m: "makedirs xs ?n = Inr n'" and t': "t' = Dir (AList.update x n' es')"
    by (auto split: sum.splits)
  show ?case
  proof (cases q)
    case Nil
    then show ?thesis by simp
  next
    case (Cons y ys)
    show ?thesis
    proof (cases "y = x")
      case False
      then show ?thesis using t' Cons "4.prems"(2) by (simp add: update_conv')
    next
      case True
      have s: "stat n' ys = Inr (Dir es)"
        using "4.prems"(2) t' Cons True by (simp add: update_conv')
      from "4.IH"[OF m s] consider es0 where "stat ?n ys = Inr (Dir es0)" | "take (length ys) xs = ys"
        by blast
      then show ?thesis
      proof cases
        case 1
        show ?thesis
        proof (cases "map_of es' x")
          case None
          with 1 have "ys = []" by (cases ys) auto
          then show ?thesis using Cons True by simp
        next
          case (Some n)
          with 1 Cons True show ?thesis by simp
        qed
      next
        case 2
        then show ?thesis using Cons True by simp
      qed
    qed
  qed
qed

lemma makedirs_keeps_dirs:
  "makedirs l t = Inr t' \<Longrightarrow> stat t q = Inr (Dir es) \<Longrightarrow> \<exists>es'. stat t' q = Inr (Dir es')"
proof (induction l t arbitrary: t' q es rule: makedirs.induct)
  case (1 es)
  then show ?case by auto
next
  case (2 c)
  then show ?case by simp
next
  case (3 x xs c)
  then show ?case by simp
next
  case (4 x xs es')
  let ?n = "case map_of es' x of None \<Rightarrow> Dir [] | Some n \<Rightarrow> n"
  from "4.prems"(1) obtain n' where m: "makedirs xs ?n = Inr n'" and t': "t' = Dir (AList.update x n' es')"
    by (auto split: sum.splits)
  show ?case
  proof (cases q)
    case Nil
    then show ?thesis using t' by simp
  next
    case (Cons y ys)
    show ?thesis
    proof (cases "y = x")
      case False
      then show ?thesis using t' Cons "4.prems"(2) by (simp add: update_conv')
    next
      case True
      from "4.prems"(2) Cons True obtain n where n: "map_of es' x = Some n" and s: "stat n ys = Inr (Dir es)"
        by (auto split: option.splits)
      from "4.IH"[OF m, of ys es] n s obtain es'' where "stat n' ys = Inr (Dir es'')" by auto
      then show ?thesis using t' Cons True by (simp add: update_conv')
    qed
  qed
qed


section \<open>Creating and copying a file\<close>

lemma resolved_parent: "resolved p \<Longrightarrow> resolved (parent p)"
  by (auto simp: resolved_def parent_def dest: in_set_butlastD)

lemma tail_parent [simp]: "tail (parent p) = butlast (tail p)"
  by (simp add: parent_def)

lemma exists_resolved:
  "resolved p \<Longrightarrow> exists t wd p \<longleftrightarrow> \<not> absent t (tail p)"
  by (simp add: exists_def absent_def locate_resolved split: sum.splits)

lemma is_dir_resolved:
  "resolved p \<Longrightarrow> is_dir t wd p \<longleftrightarrow> (\<exists>es. stat t (tail p) = Inr (Dir es))"
  by (auto simp: is_dir_def locate_resolved split: sum.splits node.splits)

lemma read_text_resolved:
  "resolved p \<Longrightarrow> stat t (tail p) = Inr (File c) \<Longrightarrow> read_text t wd p = Inr c"
  by (simp add: read_text_def locate_resolved)

lemma write_text_resolved:
  "resolved p \<Longrightarrow> \<not> (\<exists>es. stat t (tail p) = Inr (Dir es)) \<Longrightarrow>
   write_text t wd p c = put (tail p) (File c) t"
  by (auto simp: write_text_def locate_resolved split: sum.splits node.splits)

lemma write_text_InrD:
  "resolved p \<Longrightarrow> write_text t wd p c = Inr t' \<Longrightarrow> stat t' (tail p) = Inr (File c)"
  by (auto simp: write_text_def locate_resolved stat_put_same split: sum.splits node.splits)

lemma mkdir_parents_resolved:
  "resolved p \<Longrightarrow> mkdir_parents t wd p = makedirs (tail p) t"
  by (simp add: mkdir_parents_def locate_resolved)

lemma put_file_succeeds:
  assumes "\<exists>es. stat t (butlast l) = Inr (Dir es)" and "l \<noteq> []"
  shows "\<exists>t'. put l (File c) t = Inr t' \<and> stat t' l = Inr (File c)"
  using assms put_succeeds stat_put_same by blast

lemma parent_of_existing:
  assumes "stat t l = Inr n" and "l \<noteq> []"
  shows "\<exists>es. stat t (butlast l) = Inr (Dir es)"
  using stat_snoc_parent[of t "butlast l" "last l" n] assms by simp

lemma makedirs_parent_keeps_absent:
  assumes "makedirs (butlast l) t = Inr t'" and "absent t l"
  shows "absent t' l"
proof (cases "stat t' l")
  case (Inl e)
  then show ?thesis by (simp add: absent_def)
next
  case (Inr n)
  show ?thesis
  proof (cases n)
    case (File c)
    with Inr makedirs_keeps_files[OF assms(1), of l c] assms(2) show ?thesis
      by (simp add: absent_def)
  next
    case (Dir es)
    from makedirs_new_dirs[OF assms(1), of l es] Inr Dir
    consider es0 where "stat t l = Inr (Dir es0)" | "take (length l) (butlast l) = l"
      by blast
    then show ?thesis
    proof cases
      case 1
      with assms(2) show ?thesis by (simp add: absent_def)
    next
      case 2
      then have "length (take (length l) (butlast l)) = length l"
        by simp
      then have "length l \<le> length (butlast l)"
        by simp
      then have "l = []" by (cases l rule: rev_cases) auto
      with assms(2) show ?thesis by (simp add: absent_def)
    qed
  qed
qed

lemma absent_not_dir: "absent t l \<Longrightarrow> \<not> (\<exists>es. stat t l = Inr (Dir es))"
  by (auto simp: absent_def)

lemma absent_nonempty: "absent t l \<Longrightarrow> l \<noteq> []"
  by (auto simp: absent_def)

lemma parents_creatable_makedirs:
  "parents_creatable t l \<Longrightarrow> \<exists>t'. makedirs (butlast l) t = Inr t'"
  by (rule makedirs_succeeds) (auto simp: parents_creatable_def split: sum.splits node.splits)

lemma create_file_overwrites:
  assumes "resolved p" and "stat (fs w) (tail p) = Inr (File old)"
  shows "\<exists>t. create_file p content w
                = (Inr (), info (''Overwritten: '' @ quoted (str_path p)) (w\<lparr>fs := t\<rparr>))
             \<and> stat t (tail p) = Inr (File content)"
proof -
  have ex: "exists (fs w) (cwd w) p"
    using assms by (simp add: exists_resolved absent_def)
  have nd: "\<not> (\<exists>es. stat (fs w) (tail p) = Inr (Dir es))"
    using assms(2) by simp
  obtain t where t: "put (tail p) (File content) (fs w) = Inr t"
    and s: "stat t (tail p) = Inr (File content)"
  proof (cases "tail p = []")
    case True
    then show ?thesis using that by simp
  next
    case False
    from parent_of_existing[OF assms(2) False] put_file_succeeds[OF _ False]
    show ?thesis using that by blast
  qed
  have "create_file p content w
          = (Inr (), info (''Overwritten: '' @ quoted (str_path p)) (w\<lparr>fs := t\<rparr>))"
    using ex t by (simp add: create_file_def write_text_resolved[OF assms(1) nd])
  with s show ?thesis by blast
qed

lemma create_file_creates:
  assumes "resolved p" and "absent (fs w) (tail p)" and "parents_creatable (fs w) (tail p)"
  shows "\<exists>t. create_file p content w
                = (Inr (), info (''Created: '' @ quoted (str_path p)) (w\<lparr>fs := t\<rparr>))
             \<and> stat t (tail p) = Inr (File content)
             \<and> (\<exists>es. stat t (butlast (tail p)) = Inr (Dir es))"
proof -
  have ex: "\<not> exists (fs w) (cwd w) p"
    using assms by (simp add: exists_resolved)
  obtain t1 where t1: "makedirs (butlast (tail p)) (fs w) = Inr t1"
    using parents_creatable_makedirs[OF assms(3)] by blast
  have a1: "absent t1 (tail p)"
    by (rule makedirs_parent_keeps_absent[OF t1 assms(2)])
  have ne: "tail p \<noteq> []" by (rule absent_nonempty[OF assms(2)])
  obtain t2 where t2: "put (tail p) (File content) t1 = Inr t2"
    and s: "stat t2 (tail p) = Inr (File content)"
    using put_file_succeeds[OF makedirs_is_dir[OF t1] ne] by blast
  have d: "\<exists>es. stat t2 (butlast (tail p)) = Inr (Dir es)"
    by (rule parent_of_existing[OF s ne])
  have "create_file p content w
          = (Inr (), info (''Created: '' @ quoted (str_path p)) (w\<lparr>fs := t2\<rparr>))"
    using ex t1 t2
    by (simp add: create_file_def mkdir_parents_resolved[OF resolved_parent[OF assms(1)]]
        write_text_resolved[OF assms(1) absent_not_dir[OF a1]])
  with s d show ?thesis by blast
qed

lemma shutil_copy_file_to_file:
  assumes "resolved src" and "resolved dst" and "src \<noteq> dst"
    and "stat t (tail src) = Inr (File c)"
    and "\<not> (\<exists>es. stat t (tail dst) = Inr (Dir es))"
    and "\<exists>es. stat t (butlast (tail dst)) = Inr (Dir es)" and "tail dst \<noteq> []"
  shows "\<exists>t'. shutil_copy t wd src dst = Inr t' \<and> stat t' (tail dst) = Inr (File c)"
proof -
  have nd: "\<not> is_dir t wd dst"
    using assms(2,5) by (simp add: is_dir_resolved)
  have "tail src \<noteq> tail dst"
    using assms(1,2,3) by (auto simp: resolved_def path.expand)
  then have ns: "\<not> samefile t wd src dst"
    using assms(1,2) by (simp add: samefile_def locate_resolved)
  obtain t' where "put (tail dst) (File c) t = Inr t'" "stat t' (tail dst) = Inr (File c)"
    using put_file_succeeds[OF assms(6,7)] by blast
  then show ?thesis
    using nd ns
    by (simp add: shutil_copy_def copyfile_def read_text_resolved[OF assms(1,4)]
        write_text_resolved[OF assms(2,5)])
qed

lemma copy_file_overwrites:
  assumes "resolved src" and "resolved dst" and "src \<noteq> dst"
    and "stat (fs w) (tail src) = Inr (File c)"
    and "stat (fs w) (tail dst) = Inr (File old)"
  shows "\<exists>t. copy_file src dst w
                = (Inr (), info (copy_message '' file '' True (cwd w) src dst) (w\<lparr>fs := t\<rparr>))
             \<and> stat t (tail dst) = Inr (File c)"
proof -
  have ex: "exists (fs w) (cwd w) dst"
    using assms by (simp add: exists_resolved absent_def)
  have ne: "tail dst \<noteq> []"
  proof
    assume "tail dst = []"
    with assms(5) have "fs w = File old" by simp
    with assms(4) have "tail src = []" by (cases "tail src") auto
    with \<open>tail dst = []\<close> assms(1,2,3) show False by (auto simp: resolved_def path.expand)
  qed
  from parent_of_existing[OF assms(5) ne] obtain es where
    pd: "stat (fs w) (butlast (tail dst)) = Inr (Dir es)" by blast
  obtain t1 where t1: "makedirs (butlast (tail dst)) (fs w) = Inr t1"
    using makedirs_succeeds[of "fs w" "butlast (tail dst)"] pd by blast
  have s1: "stat t1 (tail src) = Inr (File c)"
    using makedirs_keeps_files[OF t1] assms(4) by simp
  have d1: "stat t1 (tail dst) = Inr (File old)"
    using makedirs_keeps_files[OF t1] assms(5) by simp
  then have nd1: "\<not> (\<exists>es. stat t1 (tail dst) = Inr (Dir es))" by simp
  obtain t2 where t2: "shutil_copy t1 (cwd w) src dst = Inr t2"
    and s: "stat t2 (tail dst) = Inr (File c)"
    using shutil_copy_file_to_file[OF assms(1,2,3) s1 nd1 makedirs_is_dir[OF t1] ne] by blast
  have "copy_file src dst w
          = (Inr (), info (copy_message '' file '' True (cwd w) src dst) (w\<lparr>fs := t2\<rparr>))"
    using ex t1 t2
    by (simp add: copy_file_def mkdir_parents_resolved[OF resolved_parent[OF assms(2)]])
  with s show ?thesis by blast
qed

lemma copy_file_creates:
  assumes "resolved src" and "resolved dst"
    and "stat (fs w) (tail src) = Inr (File c)"
    and "absent (fs w) (tail dst)" and "parents_creatable (fs w) (tail dst)"
  shows "\<exists>t. copy_file src dst w
                = (Inr (), info (copy_message '' file '' False (cwd w) src dst) (w\<lparr>fs := t\<rparr>))
             \<and> stat t (tail dst) = Inr (File c)
             \<and> (\<exists>es. stat t (butlast (tail dst)) = Inr (Dir es))"
proof -
  have ex: "\<not> exists (fs w) (cwd w) dst"
    using assms by (simp add: exists_resolved)
  have neq: "src \<noteq> dst"
    using assms(3,4) by (auto simp: absent_def)
  obtain t1 where t1: "makedirs (butlast (tail dst)) (fs w) = Inr t1"
    using parents_creatable_makedirs[OF assms(5)] by blast
  have a1: "absent t1 (tail dst)"
    by (rule makedirs_parent_keeps_absent[OF t1 assms(4)])
  have ne: "tail dst \<noteq> []" by (rule absent_nonempty[OF assms(4)])
  have s1: "stat t1 (tail src) = Inr (File c)"
    using makedirs_keeps_files[OF t1] assms(3) by simp
  obtain t2 where t2: "shutil_copy t1 (cwd w) src dst = Inr t2"
    and s: "stat t2 (tail dst) = Inr (File c)"
    using shutil_copy_file_to_file[OF assms(1,2) neq s1 absent_not_dir[OF a1]
        makedirs_is_dir[OF t1] ne] by blast
  have d: "\<exists>es. stat t2 (butlast (tail dst)) = Inr (Dir es)"
    by (rule parent_of_existing[OF s ne])
  have "copy_file src dst w
          = (Inr (), info (copy_message '' file '' False (cwd w) src dst) (w\<lparr>fs := t2\<rparr>))"
    using ex t1 t2
    by (simp add: copy_file_def mkdir_parents_resolved[OF resolved_parent[OF assms(2)]])
  with s d show ?thesis by blast
qed


text \<open>
  C7 as stated fails for a destination that exists as a directory: \<^verbatim>\<open>shutil.copy\<close>
  then puts the file into that directory under the source's base name, the message
  says \<^verbatim>\<open>Overwritten\<close>, and what was at the destination is not replaced;
  \<^verbatim>\<open>write_text\<close> on a directory fails and writes nothing. A theme file whose
  name is that of the copied reveal.js directory gets there through
  \<^verbatim>\<open>__copy_theme\<close>.
\<close>

theorem copy_into_existing_directory:
  "exists (fs example_world) (cwd example_world) (Path True [''out'', ''assets'', ''reveal-js'']) \<and>
   fst (copy_file (Path True [''etc'', ''theme.css'']) (Path True [''out'', ''assets'', ''reveal-js''])
          example_world) = Inr () \<and>
   log (snd (copy_file (Path True [''etc'', ''theme.css''])
               (Path True [''out'', ''assets'', ''reveal-js'']) example_world))
     = [(INFO, ''Overwritten file '' @ quoted ''/etc/theme.css'' @ '' to ''
                @ quoted ''/out/assets/reveal-js'')] \<and>
   stat (fs (snd (copy_file (Path True [''etc'', ''theme.css''])
                    (Path True [''out'', ''assets'', ''reveal-js'']) example_world)))
        [''out'', ''assets'', ''reveal-js'']
     = Inr (Dir [(''theme.css'', File ''ETC'')]) \<and>
   exists (fs example_world) (cwd example_world) (Path True [''out'', ''assets'']) \<and>
   create_file (Path True [''out'', ''assets'']) ''<html>'' example_world
     = (Inl IsADirectoryError, example_world) \<and>
   fst (copy_theme example_env example_generator (Path True [''out'', ''a.html''])
          ''/etc/reveal-js'' example_world)
     = Inr (ThemePath (Path False [''assets'', ''reveal-js''])) \<and>
   stat (fs (snd (copy_theme example_env example_generator (Path True [''out'', ''a.html''])
                    ''/etc/reveal-js'' example_world))) [''out'', ''assets'', ''reveal-js'']
     = Inr (Dir [(''reveal-js'', File ''CSS'')])"
  by (simp add: path_defs fs_defs run_defs example_defs Let_def copy_message_def info_def)

text \<open>
  C7, amended. For a destination that is an existing regular file, creating and
  copying replace its content and log \<^verbatim>\<open>Overwritten\<close>. For a destination that is
  absent, with no regular file in the way of its parent directories, they create the
  parent directories and the file and log \<^verbatim>\<open>Created\<close> (\<^verbatim>\<open>Copied\<close> for a copy).
  The copy is that of a regular file other than the destination.
\<close>

theorem create_and_copy_classified:
  assumes "resolved destination_path"
  shows "(stat (fs w) (tail destination_path) = Inr (File old) \<longrightarrow>
           (\<exists>t. create_file destination_path content w
                  = (Inr (), info (''Overwritten: '' @ quoted (str_path destination_path))
                                  (w\<lparr>fs := t\<rparr>))
                \<and> stat t (tail destination_path) = Inr (File content)))
       \<and> (absent (fs w) (tail destination_path)
            \<and> parents_creatable (fs w) (tail destination_path) \<longrightarrow>
           (\<exists>t. create_file destination_path content w
                  = (Inr (), info (''Created: '' @ quoted (str_path destination_path))
                                  (w\<lparr>fs := t\<rparr>))
                \<and> stat t (tail destination_path) = Inr (File content)
                \<and> (\<exists>es. stat t (tail (parent destination_path)) = Inr (Dir es))))
       \<and> (resolved source_path \<and> source_path \<noteq> destination_path
            \<and> stat (fs w) (tail source_path) = Inr (File c)
            \<and> stat (fs w) (tail destination_path) = Inr (File old) \<longrightarrow>
           (\<exists>t. copy_file source_path destination_path w
                  = (Inr (), info (copy_message '' file '' True (cwd w)
                                     source_path destination_path) (w\<lparr>fs := t\<rparr>))
                \<and> stat t (tail destination_path) = Inr (File c)))
       \<and> (resolved source_path
            \<and> stat (fs w) (tail source_path) = Inr (File c)
            \<and> absent (fs w) (tail destination_path)
            \<and> parents_creatable (fs w) (tail destination_path) \<longrightarrow>
           (\<exists>t. copy_file source_path destination_path w
                  = (Inr (), info (copy_message '' file '' False (cwd w)
                                     source_path destination_path) (w\<lparr>fs := t\<rparr>))
                \<and> stat t (tail destination_path) = Inr (File c)
                \<and> (\<exists>es. stat t (tail (parent destination_path)) = Inr (Dir es))))"
  using create_file_overwrites[OF assms, of w old content]
    create_file_creates[OF assms, of w content]
    copy_file_overwrites[OF _ assms, of source_path w c old]
    copy_file_creates[OF _ assms, of source_path w c]
  by simp

theorem create_and_copy_classified_witness:
  "resolved (Path True [''etc'', ''logo.png'']) \<and>
   resolved (Path True [''out'', ''slides'', ''sub'', ''b.html'']) \<and>
   resolved (Path True [''etc'', ''theme.css'']) \<and>
   Path True [''etc'', ''theme.css''] \<noteq> Path True [''etc'', ''logo.png''] \<and>
   stat (fs example_world) [''etc'', ''theme.css''] = Inr (File ''ETC'') \<and>
   stat (fs example_world) [''etc'', ''logo.png''] = Inr (File ''LOGO'') \<and>
   absent (fs example_world) [''out'', ''slides'', ''sub'', ''b.html''] \<and>
   parents_creatable (fs example_world) [''out'', ''slides'', ''sub'', ''b.html''] \<and>
   (\<exists>t. create_file (Path True [''etc'', ''logo.png'']) ''new'' example_world
          = (Inr (), info (''Overwritten: '' @ quoted (str_path (Path True [''etc'', ''logo.png''])))
                          (example_world\<lparr>fs := t\<rparr>))
        \<and> stat t [''etc'', ''logo.png''] = Inr (File ''new'')) \<and>
   (\<exists>t. create_file (Path True [''out'', ''slides'', ''sub'', ''b.html'']) ''new'' example_world
          = (Inr (), info (''Created: ''
                           @ quoted (str_path (Path True [''out'', ''slides'', ''sub'', ''b.html''])))
                          (example_world\<lparr>fs := t\<rparr>))
        \<and> stat t [''out'', ''slides'', ''sub'', ''b.html''] = Inr (File ''new'')
        \<and> (\<exists>es. stat t [''out'', ''slides'', ''sub''] = Inr (Dir es))) \<and>
   (\<exists>t. copy_file (Path True [''etc'', ''theme.css'']) (Path True [''etc'', ''logo.png''])
            example_world
          = (Inr (), info (copy_message '' file '' True (cwd example_world)
                             (Path True [''etc'', ''theme.css''])
                             (Path True [''etc'', ''logo.png''])) (example_world\<lparr>fs := t\<rparr>))
        \<and> stat t [''etc'', ''logo.png''] = Inr (File ''ETC'')) \<and>
   (\<exists>t. copy_file (Path True [''etc'', ''theme.css''])
            (Path True [''out'', ''slides'', ''sub'', ''b.html'']) example_world
          = (Inr (), info (copy_message '' file '' False (cwd example_world)
                             (Path True [''etc'', ''theme.css''])
                             (Path True [''out'', ''slides'', ''sub'', ''b.html'']))
                          (example_world\<lparr>fs := t\<rparr>))
        \<and> stat t [''out'', ''slides'', ''sub'', ''b.html''] = Inr (File ''ETC'')
        \<and> (\<exists>es. stat t [''out'', ''slides'', ''sub''] = Inr (Dir es)))"
proof -
  have r1: "resolved (Path True [''etc'', ''logo.png''])"
    and r2: "resolved (Path True [''out'', ''slides'', ''sub'', ''b.html''])"
    and r3: "resolved (Path True [''etc'', ''theme.css''])"
    by (simp_all add: resolved_def)
  have s: "stat (fs example_world) [''etc'', ''theme.css''] = Inr (File ''ETC'')"
    and l: "stat (fs example_world) [''etc'', ''logo.png''] = Inr (File ''LOGO'')"
    and a: "absent (fs example_world) [''out'', ''slides'', ''sub'', ''b.html'']"
    and p: "parents_creatable (fs example_world) [''out'', ''slides'', ''sub'', ''b.html'']"
    by (simp_all add: example_world_def example_fs_def absent_def parents_creatable_def)
  from create_and_copy_classified[OF r1, of example_world "''LOGO''" "''new''"
      "Path True [''etc'', ''theme.css'']" "''ETC''"]
    create_and_copy_classified[OF r2, of example_world "''LOGO''" "''new''"
      "Path True [''etc'', ''theme.css'']" "''ETC''"]
    r1 r2 r3 s l a p
  show ?thesis by simp
qed


section \<open>Resolving paths\<close>

lemma realpath_plain:
  "realpath t s cur cs = Inr l \<Longrightarrow> ''..'' \<notin> set cur \<Longrightarrow> ''..'' \<notin> set l"
proof (induction cs arbitrary: cur)
  case Nil
  then show ?case by simp
next
  case (Cons c cs)
  show ?case
  proof (cases "c = ''..''")
    case True
    with Cons.prems(1) have "realpath t s (butlast cur) cs = Inr l" by simp
    moreover have "''..'' \<notin> set (butlast cur)"
      using Cons.prems(2) by (meson in_set_butlastD)
    ultimately show ?thesis by (rule Cons.IH)
  next
    case False
    with Cons.prems(1) have "realpath t s (cur @ [c]) cs = Inr l"
      by (auto split: sum.splits if_splits)
    moreover have "''..'' \<notin> set (cur @ [c])"
      using Cons.prems(2) False by simp
    ultimately show ?thesis by (rule Cons.IH)
  qed
qed

lemma resolve_resolved:
  assumes "resolve t wd p s = Inr q" and "rooted p \<or> ''..'' \<notin> set wd"
  shows "resolved q"
proof -
  from assms(1) obtain l where l: "realpath t s (if rooted p then [] else wd) (tail p) = Inr l"
    and q: "q = Path True l"
    by (auto simp: resolve_def split: sum.splits)
  have "''..'' \<notin> set (if rooted p then [] else wd)"
    using assms(2) by auto
  from realpath_plain[OF l this] q show ?thesis by (simp add: resolved_def)
qed

text \<open>In strict mode everything on the resolved path exists.\<close>

lemma realpath_strict_exists:
  "realpath t True cur cs = Inr l \<Longrightarrow> \<exists>n. stat t cur = Inr n \<Longrightarrow> \<exists>n. stat t l = Inr n"
proof (induction cs arbitrary: cur)
  case Nil
  then show ?case by simp
next
  case (Cons c cs)
  show ?case
  proof (cases "c = ''..''")
    case True
    with Cons.prems(1) have r: "realpath t True (butlast cur) cs = Inr l" by simp
    have "\<exists>n. stat t (butlast cur) = Inr n"
    proof (cases "cur = []")
      case True
      then show ?thesis by simp
    next
      case False
      from Cons.prems(2) obtain n where "stat t (butlast cur @ [last cur]) = Inr n"
        using False by auto
      from stat_prefix_exists[OF this] show ?thesis .
    qed
    from Cons.IH[OF r this] show ?thesis .
  next
    case False
    with Cons.prems(1) obtain n where "stat t (cur @ [c]) = Inr n"
      and "realpath t True (cur @ [c]) cs = Inr l"
      by (auto split: sum.splits)
    then show ?thesis using Cons.IH by blast
  qed
qed

lemma realpath_of_existing:
  "''..'' \<notin> set cs \<Longrightarrow> stat t (cur @ cs) = Inr n \<Longrightarrow> realpath t s cur cs = Inr (cur @ cs)"
proof (induction cs arbitrary: cur)
  case Nil
  then show ?case by simp
next
  case (Cons c cs)
  from Cons.prems(2) have "stat t ((cur @ [c]) @ cs) = Inr n" by simp
  from stat_prefix_exists[OF this] obtain m where m: "stat t (cur @ [c]) = Inr m" by blast
  have "realpath t s (cur @ [c]) cs = Inr ((cur @ [c]) @ cs)"
    using Cons.IH[of "cur @ [c]"] Cons.prems by simp
  moreover have "c \<noteq> ''..''"
    using Cons.prems(1) by auto
  ultimately show ?case using m by simp
qed

lemma realpath_strict_plain:
  "''..'' \<notin> set cs \<Longrightarrow> realpath t True cur cs = Inr l \<Longrightarrow> l = cur @ cs"
proof (induction cs arbitrary: cur)
  case Nil
  then show ?case by simp
next
  case (Cons c cs)
  have c: "c \<noteq> ''..''" and cs: "''..'' \<notin> set cs"
    using Cons.prems(1) by auto
  from Cons.prems(2) c have "realpath t True (cur @ [c]) cs = Inr l"
    by (auto split: sum.splits)
  from Cons.IH[OF cs this] show ?case by simp
qed

lemma resolve_idempotent:
  assumes "resolve t wd p True = Inr q" and "rooted p"
  shows "resolve t wd' q True = Inr q"
proof -
  from assms obtain l where l: "realpath t True [] (tail p) = Inr l" and q: "q = Path True l"
    by (auto simp: resolve_def split: sum.splits)
  have pl: "''..'' \<notin> set l"
    using realpath_plain[OF l] by simp
  obtain n where "stat t l = Inr n"
    using realpath_strict_exists[OF l] by auto
  then have "realpath t True [] l = Inr l"
    using realpath_of_existing[OF pl, of t "[]" n True] by simp
  then show ?thesis by (simp add: resolve_def q)
qed

lemma resolve_fails_iff_missing:
  assumes "resolved p"
  shows "(\<exists>e. resolve t wd p True = Inl e) \<longleftrightarrow> \<not> exists t wd p"
proof (cases "stat t (tail p)")
  case (Inl e)
  have "\<not> (\<exists>q. resolve t wd p True = Inr q)"
  proof
    assume "\<exists>q. resolve t wd p True = Inr q"
    then obtain l where l: "realpath t True [] (tail p) = Inr l"
      using assms by (auto simp: resolve_def resolved_def split: sum.splits)
    have "l = [] @ tail p"
      using realpath_strict_plain[OF _ l] assms by (simp add: resolved_def)
    with realpath_strict_exists[OF l] Inl show False by simp
  qed
  then have "\<exists>e. resolve t wd p True = Inl e"
    by (cases "resolve t wd p True") auto
  moreover have "\<not> exists t wd p"
    using Inl assms by (simp add: exists_resolved absent_def)
  ultimately show ?thesis by simp
next
  case (Inr n)
  have "realpath t True [] (tail p) = Inr ([] @ tail p)"
    using realpath_of_existing[of "tail p" t "[]" n True] Inr assms by (simp add: resolved_def)
  then have "\<exists>q. resolve t wd p True = Inr q"
    using assms by (simp add: resolve_def resolved_def)
  moreover have "exists t wd p"
    using Inr assms by (simp add: exists_resolved absent_def)
  ultimately show ?thesis by auto
qed

section \<open>The output file is a resolved path\<close>

lemma walk_up_from_plain:
  assumes "walk_up_from p r other_tail step = Inr rel" and "''..'' \<notin> set (tail p)"
  shows "''..'' \<notin> set other_tail \<and> r = rooted p"
  using assms
proof (induction p r other_tail step rule: walk_up_from.induct)
  case (1 p r other_tail step)
  show ?case
  proof (cases "is_relative_to p (Path r other_tail)")
    case True
    then have t: "take (length other_tail) (tail p) = other_tail" and r: "rooted p = r"
      by (simp_all add: is_relative_to_def)
    have "set (take (length other_tail) (tail p)) \<subseteq> set (tail p)"
      by (rule set_take_subset)
    with t have "set other_tail \<subseteq> set (tail p)" by simp
    with r "1.prems"(2) show ?thesis by auto
  next
    case False
    with "1.prems"(1) have ne: "other_tail \<noteq> []" and nd: "last other_tail \<noteq> ''..''"
      and rec: "walk_up_from p r (butlast other_tail) (Suc step) = Inr rel"
      by (auto simp: walk_up_from.simps[of p r other_tail step] split: if_splits)
    from "1.IH"[OF False ne nd rec "1.prems"(2)]
    have "''..'' \<notin> set (butlast other_tail)" and r: "r = rooted p" by simp_all
    moreover have "set other_tail = set (butlast other_tail) \<union> {last other_tail}"
      using ne by (cases other_tail rule: rev_cases) auto
    ultimately show ?thesis using nd by simp
  qed
qed

lemma with_suffix_html:
  assumes "with_suffix p ''.html'' = Inr q"
  shows "\<exists>s. q = Path (rooted p) (butlast (tail p) @ [s @ ''.html''])"
  using assms by (auto simp: with_suffix_def with_name_def Let_def split: if_splits)

lemma write_markup_resolved:
  assumes "write_markup env g md_file w = (Inr (metadata, markdown, out, markup), w2)"
    and "resolved (output_revealjs_path g)"
  shows "resolved out"
proof (rule write_markup_InrE[OF assms(1)])
  fix rr
  assume o: "output_markup_path_of g md_file = Inr out"
    and w: "relative_to_walk_up (output_revealjs_path g) (parent out) = Inr rr"
  from assms(2) have pl: "''..'' \<notin> set (tail (output_revealjs_path g))"
    and rt: "rooted (output_revealjs_path g)"
    by (simp_all add: resolved_def)
  from walk_up_from_plain[OF w[unfolded relative_to_walk_up_def] pl]
  have b: "''..'' \<notin> set (butlast (tail out))" and r: "rooted out"
    using rt by (simp_all add: parent_def)
  from o obtain p where "with_suffix p ''.html'' = Inr out"
    by (auto simp: output_markup_path_of_def split: sum.splits)
  from with_suffix_html[OF this] obtain s where "tail out = butlast (tail p) @ [s @ ''.html'']"
    by auto
  then have ne: "tail out \<noteq> []" and "last (tail out) = s @ ''.html''" by simp_all
  then have "last (tail out) \<noteq> ''..''" by auto
  moreover have "set (tail out) = set (butlast (tail out)) \<union> {last (tail out)}"
    using ne by (cases "tail out" rule: rev_cases) auto
  ultimately show ?thesis using b r by (simp add: resolved_def)
qed

lemma create_file_written:
  assumes "create_file p content w = (Inr (), w')" and "resolved p"
  shows "stat (fs w') (tail p) = Inr (File content)"
proof (cases "exists (fs w) (cwd w) p")
  case True
  with assms(1) obtain t where "write_text (fs w) (cwd w) p content = Inr t" and "fs w' = t"
    by (auto simp: create_file_def split: sum.splits)
  with write_text_InrD[OF assms(2)] show ?thesis by simp
next
  case False
  with assms(1) obtain t1 t where "write_text t1 (cwd w) p content = Inr t" and "fs w' = t"
    by (auto simp: create_file_def split: sum.splits)
  with write_text_InrD[OF assms(2)] show ?thesis by simp
qed

lemma write_markup_written:
  assumes "write_markup env g md_file w = (Inr (metadata, markdown, out, markup), w2)"
    and "resolved (output_revealjs_path g)"
  shows "stat (fs w2) (tail out) = Inr (File markup)"
proof (rule write_markup_InrE[OF assms(1)])
  fix w1
  assume "create_file out markup w1 = (Inr (), w2)"
  from create_file_written[OF this write_markup_resolved[OF assms]] show ?thesis .
qed

lemma write_markup_rooted:
  assumes "write_markup env g md_file w = (Inr (metadata, markdown, out, markup), w2)"
  shows "rooted md_file = rooted (md_root_path g)"
proof (rule write_markup_InrE[OF assms(1)])
  assume "output_markup_path_of g md_file = Inr out"
  then show ?thesis
    by (auto simp: output_markup_path_of_def relative_to_def is_relative_to_def
        split: sum.splits if_splits)
qed

section \<open>Image references\<close>

lemma copy_each_image_append:
  "copy_each_image env g md_file (xs @ ys) w
     = (case copy_each_image env g md_file xs w of
          (Inl e, w') \<Rightarrow> (Inl e, w')
        | (Inr u, w') \<Rightarrow> copy_each_image env g md_file ys w')"
proof (induction xs arbitrary: w)
  case Nil
  show ?case by simp
next
  case (Cons x xs)
  show ?case by (simp add: Cons.IH split: sum.splits prod.splits)
qed

lemma copy_each_image_missing:
  assumes "resolve (fs w) (cwd w) (joinpath (parent md_file) (parse_path loc)) True = Inl e"
  shows "copy_each_image env g md_file (loc # locs) w = (Inl e, w)"
  using assms by simp

lemma copy_each_image_outside:
  assumes "resolve (fs w) (cwd w) (joinpath (parent md_file) (parse_path loc)) True = Inr image_path"
    and "rooted md_file"
    and "\<not> is_relative_to image_path (md_root_path g)"
  shows "copy_each_image env g md_file (loc # locs) w
           = copy_each_image env g md_file locs (warning (outside_message (cwd w) image_path) w)"
proof -
  have "rooted (joinpath (parent md_file) (parse_path loc))"
    using assms(2) by (simp add: joinpath_def parent_def)
  from resolve_idempotent[OF assms(1) this]
  have "resolve (fs w) (cwd w) image_path True = Inr image_path" .
  then have "copy_to_output_relative_to_md_root env g image_path w
               = (Inr None, warning (outside_message (cwd w) image_path) w)"
    using assms(3) by (simp add: copy_to_output_relative_to_md_root_def)
  with assms(1) show ?thesis by simp
qed


section \<open>References outside the source root, and missing ones\<close>

text \<open>
  C2. A Markdown file has been rendered and written, and its body refers to an image
  that exists (the reference resolves in strict mode) outside the source root. When the
  references before it have been copied and those after it are, processing the file
  returns its metadata and output path without error. The output file holds the
  rendered markup when the images are handled; handling the reference leaves the file
  system as it is and adds one warning to the log.
\<close>

theorem outside_reference_skipped:
  assumes "resolved (md_root_path g)" and "resolved (output_revealjs_path g)"
    and "write_markup env g md_file w = (Inr (metadata, markdown, out, markup), w2)"
    and "image_locations env markdown = before @ loc # after"
    and "copy_each_image env g md_file before w2 = (Inr (), w3)"
    and "resolve (fs w3) (cwd w3) (joinpath (parent md_file) (parse_path loc)) True
           = Inr image_path"
    and "\<not> is_relative_to image_path (md_root_path g)"
    and "copy_each_image env g md_file after
           (warning (outside_message (cwd w3) image_path) w3) = (Inr (), w4)"
  shows "process_markdown_file env g md_file w = (Inr (metadata, out), w4)
       \<and> stat (fs w2) (tail out) = Inr (File markup)
       \<and> copy_each_image env g md_file [loc] w3
           = (Inr (), warning (outside_message (cwd w3) image_path) w3)
       \<and> fs (warning (outside_message (cwd w3) image_path) w3) = fs w3
       \<and> log (warning (outside_message (cwd w3) image_path) w3)
           = log w3 @ [(WARNING, outside_message (cwd w3) image_path)]"
proof -
  have rooted: "rooted md_file"
    using write_markup_rooted[OF assms(3)] assms(1) by (simp add: resolved_def)
  note step = copy_each_image_outside[OF assms(6) rooted assms(7)]
  have "copy_each_image env g md_file (before @ loc # after) w2
          = copy_each_image env g md_file (loc # after) w3"
    by (simp add: copy_each_image_append assms(5) del: copy_each_image.simps)
  also have "\<dots> = (Inr (), w4)"
    by (simp only: step assms(8))
  finally have "copy_each_image env g md_file (before @ loc # after) w2 = (Inr (), w4)" .
  then have "process_markdown_file env g md_file w = (Inr (metadata, out), w4)"
    by (simp add: process_markdown_file_def assms(3) copy_images_def assms(4))
  moreover have "copy_each_image env g md_file [loc] w3
           = (Inr (), warning (outside_message (cwd w3) image_path) w3)"
    by (simp only: step copy_each_image.simps(1))
  moreover note write_markup_written[OF assms(3) assms(2)]
  ultimately show ?thesis by (simp add: warning_def)
qed

theorem outside_reference_skipped_witness:
  "resolved (md_root_path example_generator) \<and>
   resolved (output_revealjs_path example_generator) \<and>
   image_locations example_env_outside ''# A'' = [''img/cat.png''] @ ''/etc/logo.png'' # [] \<and>
   \<not> is_relative_to (Path True [''etc'', ''logo.png'']) (md_root_path example_generator) \<and>
   fst (process_markdown_file example_env_outside example_generator
          (Path True [''src'', ''a.md'']) example_world)
     = Inr (Map.empty, Path True [''out'', ''a.html'']) \<and>
   last (log (snd (process_markdown_file example_env_outside example_generator
                     (Path True [''src'', ''a.md'']) example_world)))
     = (WARNING, outside_message [''app''] (Path True [''etc'', ''logo.png''])) \<and>
   stat (fs (snd (write_markup example_env_outside example_generator
                    (Path True [''src'', ''a.md'']) example_world))) [''out'', ''a.html'']
     = Inr (File ''<html># A</html>'')"
proof -
  define w2 where "w2 = snd (write_markup example_env_outside example_generator
                    (Path True [''src'', ''a.md'']) example_world)"
  define w3 where "w3 = snd (copy_each_image example_env_outside example_generator
                    (Path True [''src'', ''a.md'']) [''img/cat.png''] w2)"
  note defs = path_defs fs_defs run_defs example_defs example_env_outside_def Let_def
  have r1: "resolved (md_root_path example_generator)"
    and r2: "resolved (output_revealjs_path example_generator)"
    by (simp_all add: resolved_def example_generator_def)
  have "fst (write_markup example_env_outside example_generator
               (Path True [''src'', ''a.md'']) example_world)
          = Inr (Map.empty, ''# A'', Path True [''out'', ''a.html''], ''<html># A</html>'')"
    by (simp add: defs)
  then have wm: "write_markup example_env_outside example_generator
               (Path True [''src'', ''a.md'']) example_world
          = (Inr (Map.empty, ''# A'', Path True [''out'', ''a.html''], ''<html># A</html>''), w2)"
    unfolding w2_def by (metis prod.collapse)
  have il: "image_locations example_env_outside ''# A''
              = [''img/cat.png''] @ ''/etc/logo.png'' # []"
    by (simp add: defs)
  have w2_eq: "w2 = info (''Created: '' @ quoted ''/out/a.html'')
       (info (''Processing markdown file: '' @ quoted ''/src/a.md'')
       (example_world\<lparr>fs :=
     Dir [(''app'', Dir [(''assets'', Dir [(''reveal.js-master'', Dir [])])]),
          (''src'', Dir [(''a.md'', File ''# A''), (''img'', Dir [(''cat.png'', File ''CAT'')])]),
          (''etc'', Dir [(''logo.png'', File ''LOGO''), (''theme.css'', File ''ETC''),
                         (''reveal-js'', File ''CSS'')]),
          (''themes'', Dir [(''theme.css'', File ''THEMES'')]),
          (''out'', Dir [(''assets'', Dir [(''reveal-js'', Dir [])]),
                         (''a.html'', File ''<html># A</html>'')])]\<rparr>))"
    unfolding w2_def by (simp add: defs info_def)
  have "fst (copy_each_image example_env_outside example_generator
                    (Path True [''src'', ''a.md'']) [''img/cat.png''] w2) = Inr ()"
    unfolding w2_eq by (simp add: defs info_def)
  then have before: "copy_each_image example_env_outside example_generator
                    (Path True [''src'', ''a.md'']) [''img/cat.png''] w2 = (Inr (), w3)"
    unfolding w3_def by (metis prod.collapse)
  have fs3: "fs w3 =
     Dir [(''app'', Dir [(''assets'', Dir [(''reveal.js-master'', Dir [])])]),
          (''src'', Dir [(''a.md'', File ''# A''), (''img'', Dir [(''cat.png'', File ''CAT'')])]),
          (''etc'', Dir [(''logo.png'', File ''LOGO''), (''theme.css'', File ''ETC''),
                         (''reveal-js'', File ''CSS'')]),
          (''themes'', Dir [(''theme.css'', File ''THEMES'')]),
          (''out'', Dir [(''assets'', Dir [(''reveal-js'', Dir [])]),
                         (''a.html'', File ''<html># A</html>''),
                         (''img'', Dir [(''cat.png'', File ''CAT'')])])]"
    and cwd3: "cwd w3 = [''app'']"
    unfolding w3_def w2_eq by (simp_all add: defs info_def)
  have rs: "resolve (fs w3) (cwd w3)
              (joinpath (parent (Path True [''src'', ''a.md''])) (parse_path ''/etc/logo.png'')) True
            = Inr (Path True [''etc'', ''logo.png''])"
    unfolding fs3 cwd3 by (simp add: defs)
  have out: "\<not> is_relative_to (Path True [''etc'', ''logo.png'']) (md_root_path example_generator)"
    by (simp add: defs)
  have after: "copy_each_image example_env_outside example_generator (Path True [''src'', ''a.md''])
                 [] (warning (outside_message (cwd w3) (Path True [''etc'', ''logo.png''])) w3)
               = (Inr (), warning (outside_message (cwd w3) (Path True [''etc'', ''logo.png''])) w3)"
    by simp
  from outside_reference_skipped[OF r1 r2 wm il before rs out after]
  have "process_markdown_file example_env_outside example_generator
          (Path True [''src'', ''a.md'']) example_world
        = (Inr (Map.empty, Path True [''out'', ''a.html'']),
           warning (outside_message (cwd w3) (Path True [''etc'', ''logo.png''])) w3)"
    and "stat (fs w2) (tail (Path True [''out'', ''a.html''])) = Inr (File ''<html># A</html>'')"
    by simp_all
  then show ?thesis
    using r1 r2 il out by (simp add: warning_def cwd3 w2_def)
qed

text \<open>
  C9. A Markdown file has been rendered and written, and its body has a reference
  that does not resolve in strict mode (for a resolved path this is: it does not exist,
  see \<open>resolve_fails_iff_missing\<close>), inside or outside the source root. When the
  references before it have been copied, processing the file ends with the error of the
  resolution, in the state reached before the reference; the output file had been
  written with the rendered markup before the images were handled.
\<close>

theorem missing_reference_fails:
  assumes "resolved (output_revealjs_path g)"
    and "write_markup env g md_file w = (Inr (metadata, markdown, out, markup), w2)"
    and "image_locations env markdown = before @ loc # after"
    and "copy_each_image env g md_file before w2 = (Inr (), w3)"
    and "resolve (fs w3) (cwd w3) (joinpath (parent md_file) (parse_path loc)) True = Inl e"
  shows "process_markdown_file env g md_file w = (Inl e, w3)
       \<and> stat (fs w2) (tail out) = Inr (File markup)"
proof -
  have "copy_each_image env g md_file (before @ loc # after) w2
          = copy_each_image env g md_file (loc # after) w3"
    by (simp add: copy_each_image_append assms(4) del: copy_each_image.simps)
  also have "\<dots> = (Inl e, w3)"
    by (rule copy_each_image_missing[OF assms(5)])
  finally have "copy_each_image env g md_file (before @ loc # after) w2 = (Inl e, w3)" .
  then have "process_markdown_file env g md_file w = (Inl e, w3)"
    by (simp add: process_markdown_file_def assms(2) copy_images_def assms(3))
  with write_markup_written[OF assms(2) assms(1)] show ?thesis by simp
qed

theorem missing_reference_fails_witness:
  "resolved (output_revealjs_path example_generator) \<and>
   image_locations example_env_missing ''# A'' = [''img/cat.png''] @ ''nope.png'' # [] \<and>
   \<not> exists (fs example_world) (cwd example_world) (Path True [''src'', ''nope.png'']) \<and>
   fst (process_markdown_file example_env_missing example_generator
          (Path True [''src'', ''a.md'']) example_world)
     = Inl FileNotFoundError \<and>
   stat (fs (snd (write_markup example_env_missing example_generator
                    (Path True [''src'', ''a.md'']) example_world))) [''out'', ''a.html'']
     = Inr (File ''<html># A</html>'')"
proof -
  define w2 where "w2 = snd (write_markup example_env_missing example_generator
                    (Path True [''src'', ''a.md'']) example_world)"
  define w3 where "w3 = snd (copy_each_image example_env_missing example_generator
                    (Path True [''src'', ''a.md'']) [''img/cat.png''] w2)"
  note defs = path_defs fs_defs run_defs example_defs example_env_missing_def Let_def
  have r2: "resolved (output_revealjs_path example_generator)"
    by (simp_all add: resolved_def example_generator_def)
  have "fst (write_markup example_env_missing example_generator
               (Path True [''src'', ''a.md'']) example_world)
          = Inr (Map.empty, ''# A'', Path True [''out'', ''a.html''], ''<html># A</html>'')"
    by (simp add: defs)
  then have wm: "write_markup example_env_missing example_generator
               (Path True [''src'', ''a.md'']) example_world
          = (Inr (Map.empty, ''# A'', Path True [''out'', ''a.html''], ''<html># A</html>''), w2)"
    unfolding w2_def by (metis prod.collapse)
  have il: "image_locations example_env_missing ''# A'' = [''img/cat.png''] @ ''nope.png'' # []"
    by (simp add: defs)
  have w2_eq: "w2 = info (''Created: '' @ quoted ''/out/a.html'')
       (info (''Processing markdown file: '' @ quoted ''/src/a.md'')
       (example_world\<lparr>fs :=
     Dir [(''app'', Dir [(''assets'', Dir [(''reveal.js-master'', Dir [])])]),
          (''src'', Dir [(''a.md'', File ''# A''), (''img'', Dir [(''cat.png'', File ''CAT'')])]),
          (''etc'', Dir [(''logo.png'', File ''LOGO''), (''theme.css'', File ''ETC''),
                         (''reveal-js'', File ''CSS'')]),
          (''themes'', Dir [(''theme.css'', File ''THEMES'')]),
          (''out'', Dir [(''assets'', Dir [(''reveal-js'', Dir [])]),
                         (''a.html'', File ''<html># A</html>'')])]\<rparr>))"
    unfolding w2_def by (simp add: defs info_def)
  have "fst (copy_each_image example_env_missing example_generator
                    (Path True [''src'', ''a.md'']) [''img/cat.png''] w2) = Inr ()"
    unfolding w2_eq by (simp add: defs info_def)
  then have before: "copy_each_image example_env_missing example_generator
                    (Path True [''src'', ''a.md'']) [''img/cat.png''] w2 = (Inr (), w3)"
    unfolding w3_def by (metis prod.collapse)
  have fs3: "fs w3 =
     Dir [(''app'', Dir [(''assets'', Dir [(''reveal.js-master'', Dir [])])]),
          (''src'', Dir [(''a.md'', File ''# A''), (''img'', Dir [(''cat.png'', File ''CAT'')])]),
          (''etc'', Dir [(''logo.png'', File ''LOGO''), (''theme.css'', File ''ETC''),
                         (''reveal-js'', File ''CSS'')]),
          (''themes'', Dir [(''theme.css'', File ''THEMES'')]),
          (''out'', Dir [(''assets'', Dir [(''reveal-js'', Dir [])]),
                         (''a.html'', File ''<html># A</html>''),
                         (''img'', Dir [(''cat.png'', File ''CAT'')])])]"
    and cwd3: "cwd w3 = [''app'']"
    unfolding w3_def w2_eq by (simp_all add: defs info_def)
  have rs: "resolve (fs w3) (cwd w3)
              (joinpath (parent (Path True [''src'', ''a.md''])) (parse_path ''nope.png'')) True
            = Inl FileNotFoundError"
    unfolding fs3 cwd3 by (simp add: defs)
  have ne: "\<not> exists (fs example_world) (cwd example_world) (Path True [''src'', ''nope.png''])"
    by (simp add: defs)
  from missing_reference_fails[OF r2 wm il before rs]
  have "process_markdown_file example_env_missing example_generator
          (Path True [''src'', ''a.md'']) example_world = (Inl FileNotFoundError, w3)"
    and "stat (fs w2) (tail (Path True [''out'', ''a.html''])) = Inr (File ''<html># A</html>'')"
    by simp_all
  then show ?thesis
    using r2 il ne by (simp add: w2_def)
qed


section \<open>Copied themes\<close>

lemma split_on_absent: "c \<notin> set s \<Longrightarrow> split_on c s = [s]"
  by (induction s) auto

lemma parse_path_plain_name: "plain_name n \<Longrightarrow> parse_path n = Path False [n]"
  by (cases n) (auto simp: plain_name_def parse_path_def split_on_absent)

lemma theme_output_path_plain:
  assumes "resolved assets" and "plain_name n"
  shows "joinpath assets (parse_path n) = Path True (tail assets @ [n])"
    and "resolved (joinpath assets (parse_path n))"
  using assms
  by (auto simp: parse_path_plain_name joinpath_def resolved_def plain_name_def)

lemma copy_file_copied:
  assumes "copy_file src dst w = (Inr (), w')"
    and "resolved src" and "resolved dst"
    and "stat (fs w) (tail src) = Inr (File c)"
    and "\<not> (\<exists>es. stat (fs w) (tail dst) = Inr (Dir es))"
  shows "stat (fs w') (tail dst) = Inr (File c)"
proof -
  from assms(1) obtain t1 t2 where t1: "mkdir_parents (fs w) (cwd w) (parent dst) = Inr t1"
    and t2: "shutil_copy t1 (cwd w) src dst = Inr t2" and w': "fs w' = t2"
    by (auto simp: copy_file_def Let_def split: sum.splits)
  have m: "makedirs (butlast (tail dst)) (fs w) = Inr t1"
    using t1 by (simp add: mkdir_parents_resolved[OF resolved_parent[OF assms(3)]])
  have nd1: "\<not> (\<exists>es. stat t1 (tail dst) = Inr (Dir es))"
  proof
    assume "\<exists>es. stat t1 (tail dst) = Inr (Dir es)"
    then obtain es where "stat t1 (tail dst) = Inr (Dir es)" by blast
    from makedirs_new_dirs[OF m this] assms(5)
    have "take (length (tail dst)) (butlast (tail dst)) = tail dst" by blast
    then have "length (take (length (tail dst)) (butlast (tail dst))) = length (tail dst)"
      by simp
    then have "tail dst = []" by (cases "tail dst" rule: rev_cases) auto
    with assms(5) m show False by (cases "fs w") auto
  qed
  have s1: "stat t1 (tail src) = Inr (File c)"
    using makedirs_keeps_files[OF m] assms(4) by simp
  have "\<not> is_dir t1 (cwd w) dst"
    using nd1 assms(3) by (simp add: is_dir_resolved)
  with t2 have "copyfile t1 (cwd w) src dst = Inr t2"
    by (simp add: shutil_copy_def)
  then have "write_text t1 (cwd w) dst c = Inr t2"
    by (auto simp: copyfile_def read_text_resolved[OF assms(2) s1] split: if_splits)
  from write_text_InrD[OF assms(3) this] w' show ?thesis by simp
qed

lemma cwd_copy_file: "cwd (snd (copy_file src dst w)) = cwd w"
  by (simp add: copy_file_def Let_def split: sum.splits)

lemma cwd_copy_tree: "cwd (snd (copy_tree env src dst w)) = cwd w"
  by (simp add: copy_tree_def Let_def split: sum.splits)

lemma cwd_copy: "cwd (snd (copy env src dst w)) = cwd w"
  by (simp add: copy_def cwd_copy_file cwd_copy_tree)

lemma copy_regular_file:
  assumes "resolved src" and "stat (fs w) (tail src) = Inr (File c)"
  shows "copy env src dst w = copy_file src dst w"
  using assms by (simp add: copy_def is_dir_resolved)

lemma copy_theme_local:
  assumes "copy_theme env g file theme w = (Inr ref, w')"
    and "is_absolute_url env theme = Inr False"
    and "resolve (fs w) (cwd w) (parse_path theme) True = Inr theme_path"
  shows "copy env theme_path (joinpath (output_assets_path g) (parse_path (name theme_path)))
           (info (''Using theme '' @ quoted (str_path theme_path)) w) = (Inr (), w')"
proof -
  let ?dst = "joinpath (output_assets_path g) (parse_path (name theme_path))"
  let ?w1 = "info (''Using theme '' @ quoted (str_path theme_path)) w"
  obtain r w2 where c: "copy env theme_path ?dst ?w1 = (r, w2)"
    by (cases "copy env theme_path ?dst ?w1")
  have "r = Inr () \<and> w2 = w'"
    using assms c
    by (cases r) (auto simp: copy_theme_def copy_to_output_def Let_def split: sum.splits)
  with c show ?thesis by simp
qed

lemma copy_theme_copied:
  assumes "copy_theme env g file theme w = (Inr ref, w')"
    and "is_absolute_url env theme = Inr False"
    and "resolve (fs w) (cwd w) (parse_path theme) True = Inr theme_path"
    and "''..'' \<notin> set (cwd w)"
    and "stat (fs w) (tail theme_path) = Inr (File c)"
    and "resolved (output_assets_path g)" and "plain_name (name theme_path)"
    and "\<not> (\<exists>es. stat (fs w) (tail (output_assets_path g) @ [name theme_path]) = Inr (Dir es))"
  shows "stat (fs w') (tail (output_assets_path g) @ [name theme_path]) = Inr (File c)"
proof -
  let ?dst = "joinpath (output_assets_path g) (parse_path (name theme_path))"
  let ?w1 = "info (''Using theme '' @ quoted (str_path theme_path)) w"
  have rp: "resolved theme_path"
    using resolve_resolved[OF assms(3)] assms(4) by simp
  have d: "?dst = Path True (tail (output_assets_path g) @ [name theme_path])"
    and rd: "resolved ?dst"
    using theme_output_path_plain[OF assms(6,7)] by simp_all
  have "copy_file theme_path ?dst ?w1 = (Inr (), w')"
    using copy_theme_local[OF assms(1,2,3)] copy_regular_file[OF rp, of ?w1 c env ?dst] assms(5)
    by simp
  from copy_file_copied[OF this rp rd] assms(5,8) d show ?thesis by simp
qed

text \<open>
  C8. A local theme is copied to the output assets directory joined with the file name
  of the theme, whatever directory the theme lies in. Two themes that are regular
  files of the same name have the same output path; after both have been copied (the
  output path not being a directory before), the file there holds the content of the
  second theme, having held that of the first.
\<close>

theorem themes_keyed_by_file_name:
  assumes "resolved (output_assets_path g)"
    and "''..'' \<notin> set (cwd w)"
    and "is_absolute_url env theme1 = Inr False"
    and "is_absolute_url env theme2 = Inr False"
    and "resolve (fs w) (cwd w) (parse_path theme1) True = Inr theme_path1"
    and "stat (fs w) (tail theme_path1) = Inr (File c1)"
    and "copy_theme env g file1 theme1 w = (Inr ref1, w1)"
    and "resolve (fs w1) (cwd w1) (parse_path theme2) True = Inr theme_path2"
    and "stat (fs w1) (tail theme_path2) = Inr (File c2)"
    and "copy_theme env g file2 theme2 w1 = (Inr ref2, w2)"
    and "name theme_path1 = name theme_path2" and "plain_name (name theme_path1)"
    and "\<not> is_dir (fs w) (cwd w) (Path True (tail (output_assets_path g) @ [name theme_path1]))"
  shows "joinpath (output_assets_path g) (parse_path (name theme_path1))
           = Path True (tail (output_assets_path g) @ [name theme_path1])
       \<and> joinpath (output_assets_path g) (parse_path (name theme_path2))
           = joinpath (output_assets_path g) (parse_path (name theme_path1))
       \<and> stat (fs w1) (tail (output_assets_path g) @ [name theme_path1]) = Inr (File c1)
       \<and> stat (fs w2) (tail (output_assets_path g) @ [name theme_path1]) = Inr (File c2)"
proof -
  let ?l = "tail (output_assets_path g) @ [name theme_path1]"
  have rl: "resolved (Path True ?l)"
    using assms(1,12) by (auto simp: resolved_def plain_name_def)
  have nd: "\<not> (\<exists>es. stat (fs w) ?l = Inr (Dir es))"
    using assms(13) is_dir_resolved[OF rl, of "fs w" "cwd w"] by simp
  have s1: "stat (fs w1) ?l = Inr (File c1)"
    by (rule copy_theme_copied[OF assms(7,3,5,2,6,1,12) nd])
  have "cwd (snd (copy env theme_path1
                    (joinpath (output_assets_path g) (parse_path (name theme_path1)))
                    (info (''Using theme '' @ quoted (str_path theme_path1)) w))) = cwd w"
    by (simp add: cwd_copy)
  then have cw: "''..'' \<notin> set (cwd w1)"
    using copy_theme_local[OF assms(7,3,5)] assms(2) by simp
  have nd1: "\<not> (\<exists>es. stat (fs w1) (tail (output_assets_path g) @ [name theme_path2])
                         = Inr (Dir es))"
    using s1 assms(11) by simp
  have pn: "plain_name (name theme_path2)"
    using assms(11,12) by simp
  have s2: "stat (fs w2) ?l = Inr (File c2)"
    using copy_theme_copied[OF assms(10,4,8) cw assms(9,1) pn nd1] assms(11) by simp
  from theme_output_path_plain(1)[OF assms(1,12)] s1 s2 assms(11)
  show ?thesis by simp
qed


theorem themes_keyed_by_file_name_witness:
  "resolved (output_assets_path example_generator) \<and>
   ''..'' \<notin> set (cwd example_world) \<and>
   is_absolute_url example_env ''/etc/theme.css'' = Inr False \<and>
   is_absolute_url example_env ''../themes/theme.css'' = Inr False \<and>
   resolve (fs example_world) (cwd example_world) (parse_path ''/etc/theme.css'') True
     = Inr (Path True [''etc'', ''theme.css'']) \<and>
   resolve (fs example_world) (cwd example_world) (parse_path ''../themes/theme.css'') True
     = Inr (Path True [''themes'', ''theme.css'']) \<and>
   name (Path True [''etc'', ''theme.css'']) = name (Path True [''themes'', ''theme.css'']) \<and>
   plain_name (name (Path True [''etc'', ''theme.css''])) \<and>
   stat (fs example_world) [''etc'', ''theme.css''] = Inr (File ''ETC'') \<and>
   stat (fs example_world) [''themes'', ''theme.css''] = Inr (File ''THEMES'') \<and>
   stat (fs (snd (copy_theme example_env example_generator (Path True [''out'', ''a.html''])
                    ''/etc/theme.css'' example_world))) [''out'', ''assets'', ''theme.css'']
     = Inr (File ''ETC'') \<and>
   stat (fs (snd (copy_theme example_env example_generator (Path True [''out'', ''sub'', ''b.html''])
                    ''../themes/theme.css''
                    (snd (copy_theme example_env example_generator (Path True [''out'', ''a.html''])
                            ''/etc/theme.css'' example_world)))))
        [''out'', ''assets'', ''theme.css'']
     = Inr (File ''THEMES'')"
proof -
  define w1 where "w1 = snd (copy_theme example_env example_generator
                    (Path True [''out'', ''a.html'']) ''/etc/theme.css'' example_world)"
  define w2 where "w2 = snd (copy_theme example_env example_generator
                    (Path True [''out'', ''sub'', ''b.html'']) ''../themes/theme.css'' w1)"
  note defs = path_defs fs_defs run_defs example_defs Let_def
  have ra: "resolved (output_assets_path example_generator)"
    by (simp add: resolved_def example_generator_def)
  have cw: "''..'' \<notin> set (cwd example_world)"
    by (simp add: example_world_def)
  have u1: "is_absolute_url example_env ''/etc/theme.css'' = Inr False"
    and u2: "is_absolute_url example_env ''../themes/theme.css'' = Inr False"
    by (simp_all add: defs)
  have p1: "resolve (fs example_world) (cwd example_world) (parse_path ''/etc/theme.css'') True
              = Inr (Path True [''etc'', ''theme.css''])"
    and s1: "stat (fs example_world) (tail (Path True [''etc'', ''theme.css''])) = Inr (File ''ETC'')"
    by (simp_all add: defs)
  have w1_eq: "fs w1 =
     Dir [(''app'', Dir [(''assets'', Dir [(''reveal.js-master'', Dir [])])]),
          (''src'', Dir [(''a.md'', File ''# A''), (''img'', Dir [(''cat.png'', File ''CAT'')])]),
          (''etc'', Dir [(''logo.png'', File ''LOGO''), (''theme.css'', File ''ETC''),
                         (''reveal-js'', File ''CSS'')]),
          (''themes'', Dir [(''theme.css'', File ''THEMES'')]),
          (''out'', Dir [(''assets'', Dir [(''reveal-js'', Dir []), (''theme.css'', File ''ETC'')])])]"
    and cwd1: "cwd w1 = [''app'']"
    and f1: "fst (copy_theme example_env example_generator
                    (Path True [''out'', ''a.html'']) ''/etc/theme.css'' example_world)
               = Inr (ThemePath (Path False [''assets'', ''theme.css'']))"
    unfolding w1_def by (simp_all add: defs info_def copy_message_def)
  have c1: "copy_theme example_env example_generator
                    (Path True [''out'', ''a.html'']) ''/etc/theme.css'' example_world
              = (Inr (ThemePath (Path False [''assets'', ''theme.css''])), w1)"
    using f1 unfolding w1_def by (metis prod.collapse)
  have p2: "resolve (fs w1) (cwd w1) (parse_path ''../themes/theme.css'') True
              = Inr (Path True [''themes'', ''theme.css''])"
    and s2: "stat (fs w1) (tail (Path True [''themes'', ''theme.css''])) = Inr (File ''THEMES'')"
    unfolding w1_eq cwd1 by (simp_all add: defs)
  have f2: "fst (copy_theme example_env example_generator
                    (Path True [''out'', ''sub'', ''b.html'']) ''../themes/theme.css'' w1)
               = Inr (ThemePath (Path False [''..'', ''assets'', ''theme.css'']))"
    by (simp add: defs w1_eq cwd1 info_def copy_message_def)
  have c2: "copy_theme example_env example_generator
                    (Path True [''out'', ''sub'', ''b.html'']) ''../themes/theme.css'' w1
              = (Inr (ThemePath (Path False [''..'', ''assets'', ''theme.css''])), w2)"
    using f2 unfolding w2_def by (metis prod.collapse)
  have n: "name (Path True [''etc'', ''theme.css'']) = name (Path True [''themes'', ''theme.css''])"
    and pn: "plain_name (name (Path True [''etc'', ''theme.css'']))"
    by (simp_all add: name_def plain_name_def)
  have nd: "\<not> is_dir (fs example_world) (cwd example_world)
              (Path True (tail (output_assets_path example_generator)
                          @ [name (Path True [''etc'', ''theme.css''])]))"
    by (simp add: defs)
  have p2': "resolve (fs example_world) (cwd example_world) (parse_path ''../themes/theme.css'') True
              = Inr (Path True [''themes'', ''theme.css''])"
    and s2': "stat (fs example_world) [''themes'', ''theme.css''] = Inr (File ''THEMES'')"
    by (simp_all add: defs)
  from themes_keyed_by_file_name[OF ra cw u1 u2 p1 s1 c1 p2 s2 c2 n pn nd]
  have "stat (fs w1) [''out'', ''assets'', ''theme.css''] = Inr (File ''ETC'')"
    and "stat (fs w2) [''out'', ''assets'', ''theme.css''] = Inr (File ''THEMES'')"
    by (simp_all add: example_generator_def name_def)
  then show ?thesis
    using ra cw u1 u2 p1 s1 n pn p2' s2' by (simp add: w1_def w2_def)
qed


section \<open>The generator that the constructor builds\<close>

lemma init_InrE:
  assumes "init cfg md_root output_directory w = (Inr g, w')"
  obtains w1 :: world where
    "resolve (fs w) (cwd w) md_root True = Inr (md_root_path g)"
    "resolve (fs w1) (cwd w1) output_directory False = Inr (output_directory_path g)"
    "cwd w1 = cwd w"
    "output_assets_path g = joinpath (output_directory_path g) (parse_path ''assets'')"
    "output_revealjs_path g = joinpath (output_assets_path g) (parse_path ''reveal-js'')"
proof -
  obtain root where r: "resolve (fs w) (cwd w) md_root True = Inr root"
    using assms by (cases "resolve (fs w) (cwd w) md_root True") (simp_all add: init_def)
  let ?w1 = "info (''Markdown root directory: '' @ quoted (str_path (absolute (cwd w) root))) w"
  obtain out where o: "resolve (fs ?w1) (cwd ?w1) output_directory False = Inr out"
    using assms r
    by (cases "resolve (fs ?w1) (cwd ?w1) output_directory False") (simp_all add: init_def Let_def)
  let ?w2 = "info (''Requested output directory: '' @ quoted (str_path (absolute (cwd ?w1) out))) ?w1"
  obtain assets where a: "resolve (fs ?w2) (cwd ?w2) (parse_path ''assets'') True = Inr assets"
    using assms r o
    by (cases "resolve (fs ?w2) (cwd ?w2) (parse_path ''assets'') True")
       (simp_all add: init_def Let_def)
  obtain revealjs where
    v: "resolve (fs ?w2) (cwd ?w2) (joinpath assets (parse_path ''reveal.js-master'')) True
          = Inr revealjs"
    using assms r o a
    by (cases "resolve (fs ?w2) (cwd ?w2) (joinpath assets (parse_path ''reveal.js-master'')) True")
       (simp_all add: init_def Let_def)
  have g: "g = \<lparr>config = cfg, md_root_path = root, output_directory_path = out,
                 assets_path = assets, revealjs_path = revealjs,
                 output_assets_path = joinpath out (parse_path ''assets''),
                 output_revealjs_path =
                   joinpath (joinpath out (parse_path ''assets'')) (parse_path ''reveal-js'')\<rparr>"
    using assms r o a v by (simp add: init_def Let_def)
  show thesis
    by (rule that[of ?w1]) (use r o in \<open>simp_all add: g\<close>)
qed

lemma init_resolved:
  assumes "init cfg md_root output_directory w = (Inr g, w')" and "''..'' \<notin> set (cwd w)"
  shows "resolved (md_root_path g)" and "resolved (output_directory_path g)"
    and "resolved (output_assets_path g)" and "resolved (output_revealjs_path g)"
proof -
  from init_InrE[OF assms(1)] obtain w1 :: world where
    r: "resolve (fs w) (cwd w) md_root True = Inr (md_root_path g)"
    and o: "resolve (fs w1) (cwd w1) output_directory False = Inr (output_directory_path g)"
    and c: "cwd w1 = cwd w"
    and a: "output_assets_path g = joinpath (output_directory_path g) (parse_path ''assets'')"
    and v: "output_revealjs_path g = joinpath (output_assets_path g) (parse_path ''reveal-js'')"
    by metis
  show "resolved (md_root_path g)"
    using resolve_resolved[OF r] assms(2) by simp
  show ro: "resolved (output_directory_path g)"
    using resolve_resolved[OF o] assms(2) c by simp
  have p1: "plain_name ''assets''" and p2: "plain_name ''reveal-js''"
    by (simp_all add: plain_name_def)
  show ra: "resolved (output_assets_path g)"
    unfolding a by (rule theme_output_path_plain(2)[OF ro p1])
  show "resolved (output_revealjs_path g)"
    unfolding v by (rule theme_output_path_plain(2)[OF ra p2])
qed


section \<open>The two call sites of the relative path\<close>

lemma revealjs_reference_points_at_copy:
  assumes "write_markup env g md_file w = (Inr (metadata, markdown, out, markup), w2)"
    and "resolved (output_revealjs_path g)"
  shows "\<exists>rel. relative_to_walk_up (output_revealjs_path g) (parent out) = Inr rel \<and>
           resolve_against (tail (parent out)) (tail rel) = tail (output_revealjs_path g)"
proof -
  have "resolved (parent out)"
    by (rule resolved_parent[OF write_markup_resolved[OF assms]])
  from relative_to_walk_up_resolves[OF assms(2) this] show ?thesis by blast
qed

lemma theme_reference_points_at_copy:
  assumes "copy_theme env g file_using_theme_path theme w = (Inr (ThemePath rel), w')"
    and "is_absolute_url env theme = Inr False"
    and "resolve (fs w) (cwd w) (parse_path theme) True = Inr theme_path"
    and "resolved (output_assets_path g)" and "plain_name (name theme_path)"
  shows "resolve_against (tail (parent file_using_theme_path)) (tail rel)
           = tail (output_assets_path g) @ [name theme_path]"
proof -
  let ?dst = "joinpath (output_assets_path g) (parse_path (name theme_path))"
  have d: "?dst = Path True (tail (output_assets_path g) @ [name theme_path])"
    and rd: "resolved ?dst"
    using theme_output_path_plain[OF assms(4,5)] by simp_all
  have "relative_to_walk_up ?dst (parent file_using_theme_path) = Inr rel"
    using assms(1,2,3)
    by (auto simp: copy_theme_def Let_def split: sum.splits prod.splits)
  then have "walk_up_from ?dst (rooted (parent file_using_theme_path))
               (tail (parent file_using_theme_path)) 0 = Inr rel"
    by (simp add: relative_to_walk_up_def)
  from walk_up_from_resolves[OF this, of "[]"] rd d show ?thesis
    by (simp add: resolved_def)
qed


end
